theory Spec2Isabelle
  imports Complex_Main "HOL-Library.Multiset"
begin

section \<open>Data model (shared/schema.ts)\<close>

text \<open>
  The four tables of the schema and their insert shapes.  A column declared
  \<^verbatim>\<open>serial\<close> or \<^verbatim>\<open>integer\<close> is an \<^typ>\<open>int\<close>, a \<^verbatim>\<open>doublePrecision\<close> column is a
  \<^typ>\<open>real\<close> (the server stores and returns these numbers and never computes
  with them), a \<^verbatim>\<open>text\<close> column is a \<^typ>\<open>string\<close>.  A row type is the insert shape
  extended by the generated columns, as \<^verbatim>\<open>{ ...insert, id }\<close> builds it.
  A property that may be absent at run time is an \<^typ>\<open>'a option\<close>.
\<close>

record insert_user =
  username :: string
  password :: string
  user_name :: string
  isAdmin :: "bool option"

record user = insert_user +
  user_id :: int

record insert_menu_item =
  menu_name :: string
  description :: string
  menu_price :: real
  imageUrl :: string
  category :: string

record menu_item = insert_menu_item +
  menu_id :: int

text \<open>\<^verbatim>\<open>Partial<InsertMenuItem>\<close>: every property may be missing.\<close>

record partial_menu_item =
  p_name :: "string option"
  p_description :: "string option"
  p_price :: "real option"
  p_imageUrl :: "string option"
  p_category :: "string option"

text \<open>\<^verbatim>\<open>special_instructions\<close> is the one nullable column: the property is absent,
  \<^verbatim>\<open>null\<close> or a string.\<close>

datatype nullable_text = Absent | Null | Text string

record insert_order =
  userId :: int
  customerName :: string
  customerPhone :: string
  orderType :: string
  specialInstructions :: nullable_text
  subtotal :: real
  tax :: real
  total :: real

text \<open>\<^verbatim>\<open>createdAt\<close> is a \<^verbatim>\<open>Date\<close>; the model keeps its \<^verbatim>\<open>getTime()\<close>, the
  milliseconds since the epoch.  \<^verbatim>\<open>status\<close> is not part of the insert shape.\<close>

record order = insert_order +
  order_id :: int
  createdAt :: int
  status :: "string option"

record insert_order_item =
  orderId :: int
  menuItemId :: int
  item_name :: string
  item_price :: real
  quantity :: int

record order_item = insert_order_item +
  item_id :: int

section \<open>The in-memory store (server/storage.ts)\<close>

subsection \<open>\<^verbatim>\<open>Map<number, V>\<close>\<close>

text \<open>
  A JavaScript \<^verbatim>\<open>Map\<close> iterates in insertion order, \<^verbatim>\<open>set\<close> on a key that is
  present replaces the value where it stands, \<^verbatim>\<open>delete\<close> tells whether the key
  was there.  The model is an association list in insertion order.
\<close>

type_synonym 'v jsmap = "(int \<times> 'v) list"

definition map_get :: "'v jsmap \<Rightarrow> int \<Rightarrow> 'v option" where
  "map_get m k = map_of m k"

fun map_set :: "int \<Rightarrow> 'v \<Rightarrow> 'v jsmap \<Rightarrow> 'v jsmap" where
  "map_set k v [] = [(k, v)]"
| "map_set k v (p # m) = (if fst p = k then (k, v) # m else p # map_set k v m)"

definition map_delete :: "int \<Rightarrow> 'v jsmap \<Rightarrow> bool \<times> 'v jsmap" where
  "map_delete k m = (k \<in> set (map fst m), filter (\<lambda>p. fst p \<noteq> k) m)"

definition map_values :: "'v jsmap \<Rightarrow> 'v list" where
  "map_values m = map snd m"

subsection \<open>\<^verbatim>\<open>Array.prototype.sort\<close> with a comparator\<close>

text \<open>
  The sort is stable: an element goes before the first element of the sorted
  rest that the comparator does not put strictly before it.
\<close>

fun insort_by :: "('a \<Rightarrow> 'a \<Rightarrow> int) \<Rightarrow> 'a \<Rightarrow> 'a list \<Rightarrow> 'a list" where
  "insort_by cmp x [] = [x]"
| "insort_by cmp x (y # ys) =
     (if cmp x y \<le> 0 then x # y # ys else y # insort_by cmp x ys)"

definition sort_by :: "('a \<Rightarrow> 'a \<Rightarrow> int) \<Rightarrow> 'a list \<Rightarrow> 'a list" where
  "sort_by cmp xs = foldr (insort_by cmp) xs []"

subsection \<open>\<^verbatim>\<open>String.prototype.toLowerCase\<close>\<close>

text \<open>Strings are byte strings; the letters \<^verbatim>\<open>A\<close> to \<^verbatim>\<open>Z\<close> are mapped to
  \<^verbatim>\<open>a\<close> to \<^verbatim>\<open>z\<close>, every other byte is kept.\<close>

definition lower_char :: "char \<Rightarrow> char" where
  "lower_char c =
     (case map_of (zip ''ABCDEFGHIJKLMNOPQRSTUVWXYZ'' ''abcdefghijklmnopqrstuvwxyz'') c of
        None \<Rightarrow> c
      | Some l \<Rightarrow> l)"

definition toLowerCase :: "string \<Rightarrow> string" where
  "toLowerCase s = map lower_char s"

subsection \<open>\<^verbatim>\<open>class MemStorage\<close>\<close>

record MemStorage =
  users :: "user jsmap"
  menuItems :: "menu_item jsmap"
  orders :: "order jsmap"
  orderItems :: "order_item jsmap"
  userIdCounter :: int
  menuItemIdCounter :: int
  orderIdCounter :: int
  orderItemIdCounter :: int

definition getUser :: "int \<Rightarrow> MemStorage \<Rightarrow> user option" where
  "getUser ident s = map_get (users s) ident"

definition getUserByUsername :: "string \<Rightarrow> MemStorage \<Rightarrow> user option" where
  "getUserByUsername name s =
     find (\<lambda>u. toLowerCase (username u) = toLowerCase name) (map_values (users s))"

definition createUser :: "insert_user \<Rightarrow> MemStorage \<Rightarrow> user \<times> MemStorage" where
  "createUser insertUser s =
     (let ident = userIdCounter s;
          s1 = s\<lparr>userIdCounter := ident + 1\<rparr>;
          u = \<lparr>username = username insertUser, password = password insertUser,
               user_name = user_name insertUser, isAdmin = isAdmin insertUser,
               user_id = ident\<rparr>
      in (u, s1\<lparr>users := map_set ident u (users s1)\<rparr>))"

definition getAllMenuItems :: "MemStorage \<Rightarrow> menu_item list" where
  "getAllMenuItems s = map_values (menuItems s)"

definition getMenuItemsByCategory :: "string \<Rightarrow> MemStorage \<Rightarrow> menu_item list" where
  "getMenuItemsByCategory cat s =
     (if cat = ''all'' then getAllMenuItems s
      else filter (\<lambda>item. category item = cat) (map_values (menuItems s)))"

definition getMenuItem :: "int \<Rightarrow> MemStorage \<Rightarrow> menu_item option" where
  "getMenuItem ident s = map_get (menuItems s) ident"

definition createMenuItem :: "insert_menu_item \<Rightarrow> MemStorage \<Rightarrow> menu_item \<times> MemStorage" where
  "createMenuItem menuItem s =
     (let ident = menuItemIdCounter s;
          s1 = s\<lparr>menuItemIdCounter := ident + 1\<rparr>;
          newMenuItem = \<lparr>menu_name = menu_name menuItem, description = description menuItem,
               menu_price = menu_price menuItem, imageUrl = imageUrl menuItem,
               category = category menuItem, menu_id = ident\<rparr>
      in (newMenuItem, s1\<lparr>menuItems := map_set ident newMenuItem (menuItems s1)\<rparr>))"

text \<open>\<^verbatim>\<open>{ ...existingMenuItem, ...menuItem }\<close>: a property of the partial item that
  is present replaces the existing one.\<close>

definition merge_menu_item :: "menu_item \<Rightarrow> partial_menu_item \<Rightarrow> menu_item" where
  "merge_menu_item e p =
     \<lparr>menu_name = (case p_name p of None \<Rightarrow> menu_name e | Some v \<Rightarrow> v),
      description = (case p_description p of None \<Rightarrow> description e | Some v \<Rightarrow> v),
      menu_price = (case p_price p of None \<Rightarrow> menu_price e | Some v \<Rightarrow> v),
      imageUrl = (case p_imageUrl p of None \<Rightarrow> imageUrl e | Some v \<Rightarrow> v),
      category = (case p_category p of None \<Rightarrow> category e | Some v \<Rightarrow> v),
      menu_id = menu_id e\<rparr>"

definition updateMenuItem ::
  "int \<Rightarrow> partial_menu_item \<Rightarrow> MemStorage \<Rightarrow> menu_item option \<times> MemStorage" where
  "updateMenuItem ident menuItem s =
     (case map_get (menuItems s) ident of
        None \<Rightarrow> (None, s)
      | Some existingMenuItem \<Rightarrow>
          (let updatedMenuItem = merge_menu_item existingMenuItem menuItem
           in (Some updatedMenuItem,
               s\<lparr>menuItems := map_set ident updatedMenuItem (menuItems s)\<rparr>)))"

definition deleteMenuItem :: "int \<Rightarrow> MemStorage \<Rightarrow> bool \<times> MemStorage" where
  "deleteMenuItem ident s =
     (let (found, m) = map_delete ident (menuItems s) in (found, s\<lparr>menuItems := m\<rparr>))"

text \<open>
  The loop of \<^verbatim>\<open>createOrder\<close> over the items.  It also hands back the order
  items it stored, in order; \<^verbatim>\<open>createOrder\<close> drops them, as the source returns
  the order only.
\<close>

fun addOrderItems ::
  "int \<Rightarrow> insert_order_item list \<Rightarrow> MemStorage \<Rightarrow> order_item list \<times> MemStorage" where
  "addOrderItems ident [] s = ([], s)"
| "addOrderItems ident (item # items) s =
     (let orderItemId = orderItemIdCounter s;
          s1 = s\<lparr>orderItemIdCounter := orderItemId + 1\<rparr>;
          orderItem = \<lparr>orderId = ident, menuItemId = menuItemId item,
               item_name = item_name item, item_price = item_price item,
               quantity = quantity item, item_id = orderItemId\<rparr>;
          s2 = s1\<lparr>orderItems := map_set orderItemId orderItem (orderItems s1)\<rparr>;
          (rest, s3) = addOrderItems ident items s2
      in (orderItem # rest, s3))"

text \<open>The reading of the clock, \<^verbatim>\<open>new Date()\<close>, is the argument \<open>now\<close>.\<close>

definition createOrder ::
  "insert_order \<Rightarrow> insert_order_item list \<Rightarrow> int \<Rightarrow> MemStorage \<Rightarrow> order \<times> MemStorage" where
  "createOrder ord items now s =
     (let ident = orderIdCounter s;
          s1 = s\<lparr>orderIdCounter := ident + 1\<rparr>;
          newOrder = \<lparr>userId = userId ord, customerName = customerName ord,
               customerPhone = customerPhone ord, orderType = orderType ord,
               specialInstructions = specialInstructions ord, subtotal = subtotal ord,
               tax = tax ord, total = total ord,
               order_id = ident, createdAt = now, status = None\<rparr>;
          s2 = s1\<lparr>orders := map_set ident newOrder (orders s1)\<rparr>
      in (newOrder, snd (addOrderItems ident items s2)))"

text \<open>The order items that the loop builds in that call, each with the id that
  the loop gave it.\<close>

definition createOrder_items ::
  "insert_order \<Rightarrow> insert_order_item list \<Rightarrow> int \<Rightarrow> MemStorage \<Rightarrow> order_item list" where
  "createOrder_items ord items now s =
     (let ident = orderIdCounter s;
          s1 = s\<lparr>orderIdCounter := ident + 1\<rparr>;
          newOrder = \<lparr>userId = userId ord, customerName = customerName ord,
               customerPhone = customerPhone ord, orderType = orderType ord,
               specialInstructions = specialInstructions ord, subtotal = subtotal ord,
               tax = tax ord, total = total ord,
               order_id = ident, createdAt = now, status = None\<rparr>;
          s2 = s1\<lparr>orders := map_set ident newOrder (orders s1)\<rparr>
      in fst (addOrderItems ident items s2))"

definition newest_first :: "order \<Rightarrow> order \<Rightarrow> int" where
  "newest_first a b = createdAt b - createdAt a"

definition getOrdersByUserId :: "int \<Rightarrow> MemStorage \<Rightarrow> order list" where
  "getOrdersByUserId uid s =
     sort_by newest_first (filter (\<lambda>ord. userId ord = uid) (map_values (orders s)))"

definition getAllOrders :: "MemStorage \<Rightarrow> order list" where
  "getAllOrders s = sort_by newest_first (map_values (orders s))"

definition getOrderWithItems :: "int \<Rightarrow> MemStorage \<Rightarrow> (order \<times> order_item list) option" where
  "getOrderWithItems oid s =
     (case map_get (orders s) oid of
        None \<Rightarrow> None
      | Some ord \<Rightarrow>
          Some (ord, filter (\<lambda>item. orderId item = oid) (map_values (orderItems s))))"

definition updateOrderStatus :: "int \<Rightarrow> string \<Rightarrow> MemStorage \<Rightarrow> order option \<times> MemStorage" where
  "updateOrderStatus oid st s =
     (case map_get (orders s) oid of
        None \<Rightarrow> (None, s)
      | Some ord \<Rightarrow>
          (let updatedOrder = ord\<lparr>status := Some st\<rparr>
           in (Some updatedOrder, s\<lparr>orders := map_set oid updatedOrder (orders s)\<rparr>)))"

text \<open>The constructor: empty maps, counters at 1, then the default admin user and
  the seed menu.\<close>

definition empty_store :: MemStorage where
  "empty_store =
     \<lparr>users = [], menuItems = [], orders = [], orderItems = [],
      userIdCounter = 1, menuItemIdCounter = 1, orderIdCounter = 1,
      orderItemIdCounter = 1\<rparr>"

definition admin_user :: insert_user where
  "admin_user =
     \<lparr>username = ''admin@milestar.com'', password = ''admin123'', user_name = ''Admin'',
      isAdmin = Some True\<rparr>"

definition seed_items :: "insert_menu_item list" where
  "seed_items =
     [\<lparr>menu_name = ''Classic Cheeseburger'',
       description = ''Juicy beef patty with melted cheese, fresh vegetables, and our special sauce.'',
       menu_price = 399,
       imageUrl = ''https://images.unsplash.com/photo-1568901346375-23c9450c58cd?ixlib=rb-4.0.3&auto=format&fit=crop&w=800&h=500'',
       category = ''food''\<rparr>,
      \<lparr>menu_name = ''Veggie Pasta Salad'',
       description = ''Fresh pasta with mixed vegetables, herbs, and light vinaigrette dressing.'',
       menu_price = 349,
       imageUrl = ''https://images.unsplash.com/photo-1473093295043-cdd812d0e601?ixlib=rb-4.0.3&auto=format&fit=crop&w=800&h=500'',
       category = ''food''\<rparr>,
      \<lparr>menu_name = ''Crispy Chicken Sandwich'',
       description = ''Crispy fried chicken breast with lettuce, tomato, and mayo on a toasted bun.'',
       menu_price = 369,
       imageUrl = ''https://images.unsplash.com/photo-1606755962773-d324e0a13086?ixlib=rb-4.0.3&auto=format&fit=crop&w=800&h=500'',
       category = ''food''\<rparr>,
      \<lparr>menu_name = ''Berry Smoothie'',
       description = ''Refreshing blend of mixed berries, yogurt, and honey.'',
       menu_price = 249,
       imageUrl = ''https://images.unsplash.com/photo-1505252585461-04db1eb84625?ixlib=rb-4.0.3&auto=format&fit=crop&w=800&h=500'',
       category = ''juice''\<rparr>,
      \<lparr>menu_name = ''Fresh Orange Juice'',
       description = ''Freshly squeezed orange juice, no added sugar or preservatives.'',
       menu_price = 199,
       imageUrl = ''https://images.unsplash.com/photo-1600271886742-f049cd451bba?ixlib=rb-4.0.3&auto=format&fit=crop&w=800&h=500'',
       category = ''juice''\<rparr>,
      \<lparr>menu_name = ''Cafe Latte'',
       description = ''Espresso with steamed milk and a light layer of foam.'',
       menu_price = 179,
       imageUrl = ''https://images.unsplash.com/photo-1541167760496-1628856ab772?ixlib=rb-4.0.3&auto=format&fit=crop&w=800&h=500'',
       category = ''beverage''\<rparr>,
      \<lparr>menu_name = ''Hot Chocolate'',
       description = ''Rich and creamy hot chocolate topped with whipped cream.'',
       menu_price = 159,
       imageUrl = ''https://images.unsplash.com/photo-1542990253-0d0f5be5f0ed?ixlib=rb-4.0.3&auto=format&fit=crop&w=800&h=500'',
       category = ''beverage''\<rparr>]"

definition seedMenuItems :: "MemStorage \<Rightarrow> MemStorage" where
  "seedMenuItems s = fold (\<lambda>item s'. snd (createMenuItem item s')) seed_items s"

definition MemStorage_new :: MemStorage where
  "MemStorage_new = seedMenuItems (snd (createUser admin_user empty_store))"

subsection \<open>Calls on the store\<close>

text \<open>
  The mutating methods of \<^verbatim>\<open>IStorage\<close> as a datatype of calls; the reading methods
  leave the store as it is.  A store is reachable when a sequence of calls leads
  to it from the constructor's store.
\<close>

datatype store_call =
    CreateUser insert_user
  | CreateMenuItem insert_menu_item
  | UpdateMenuItem int partial_menu_item
  | DeleteMenuItem int
  | CreateOrder insert_order "insert_order_item list" int
  | UpdateOrderStatus int string

fun exec :: "store_call \<Rightarrow> MemStorage \<Rightarrow> MemStorage" where
  "exec (CreateUser u) s = snd (createUser u s)"
| "exec (CreateMenuItem m) s = snd (createMenuItem m s)"
| "exec (UpdateMenuItem i p) s = snd (updateMenuItem i p s)"
| "exec (DeleteMenuItem i) s = snd (deleteMenuItem i s)"
| "exec (CreateOrder ord items now) s = snd (createOrder ord items now s)"
| "exec (UpdateOrderStatus i st) s = snd (updateOrderStatus i st s)"

fun run :: "store_call list \<Rightarrow> MemStorage \<Rightarrow> MemStorage" where
  "run [] s = s"
| "run (c # cs) s = run cs (exec c s)"

text \<open>The ids a call hands out, per entity type (for order items: the ids that the
  loop of \<^verbatim>\<open>createOrder\<close> gives to the items, one after the other), and the ids
  handed out along a sequence of calls, in the order of the calls.\<close>

datatype entity = Users | MenuItems | Orders | OrderItems

fun assigned :: "entity \<Rightarrow> store_call \<Rightarrow> MemStorage \<Rightarrow> int list" where
  "assigned Users (CreateUser u) s = [user_id (fst (createUser u s))]"
| "assigned MenuItems (CreateMenuItem m) s = [menu_id (fst (createMenuItem m s))]"
| "assigned Orders (CreateOrder ord items now) s = [order_id (fst (createOrder ord items now s))]"
| "assigned OrderItems (CreateOrder ord items now) s =
     map item_id (createOrder_items ord items now s)"
| "assigned e c s = []"

fun history :: "entity \<Rightarrow> store_call list \<Rightarrow> MemStorage \<Rightarrow> int list" where
  "history e [] s = []"
| "history e (c # cs) s = assigned e c s @ history e cs (exec c s)"

fun counter :: "entity \<Rightarrow> MemStorage \<Rightarrow> int" where
  "counter Users s = userIdCounter s"
| "counter MenuItems s = menuItemIdCounter s"
| "counter Orders s = orderIdCounter s"
| "counter OrderItems s = orderItemIdCounter s"

text \<open>The ids of the entities a store holds, in iteration order.\<close>

fun stored_ids :: "entity \<Rightarrow> MemStorage \<Rightarrow> int list" where
  "stored_ids Users s = map user_id (map_values (users s))"
| "stored_ids MenuItems s = map menu_id (map_values (menuItems s))"
| "stored_ids Orders s = map order_id (map_values (orders s))"
| "stored_ids OrderItems s = map item_id (map_values (orderItems s))"

section \<open>The request router (server/routes.ts)\<close>

subsection \<open>JSON values\<close>

text \<open>
  A parsed request body.  \<^verbatim>\<open>undefined\<close>, the value of a property that is not
  there, is \<open>None\<close> of an optional value.  A number is a real: the handlers test
  numbers for being zero and the schemas test them for being integral; nothing
  is added or multiplied on the server.
\<close>

datatype json =
    JNull
  | JBool bool
  | JNum real
  | JStr string
  | JArr "json list"
  | JObj "(string \<times> json) list"

text \<open>Reading one of the properties the handlers name (\<^verbatim>\<open>orderDetails\<close>,
  \<^verbatim>\<open>cartItems\<close>, \<^verbatim>\<open>status\<close>, \<^verbatim>\<open>id\<close>, \<^verbatim>\<open>name\<close>, \<^verbatim>\<open>price\<close>, \<^verbatim>\<open>quantity\<close>): an
  object has it or not; a boolean, a number, a string and an array do not have
  it; on \<^verbatim>\<open>null\<close> the read throws a \<^verbatim>\<open>TypeError\<close>.\<close>

datatype exn = TypeError | ZodError "string list"

fun js_prop :: "string \<Rightarrow> json \<Rightarrow> exn + json option" where
  "js_prop k JNull = Inl TypeError"
| "js_prop k (JObj fs) = Inr (map_of fs k)"
| "js_prop k v = Inr None"

fun truthy :: "json option \<Rightarrow> bool" where
  "truthy None = False"
| "truthy (Some JNull) = False"
| "truthy (Some (JBool b)) = b"
| "truthy (Some (JNum r)) = (r \<noteq> 0)"
| "truthy (Some (JStr s)) = (s \<noteq> [])"
| "truthy (Some (JArr xs)) = True"
| "truthy (Some (JObj fs)) = True"

fun isArray :: "json option \<Rightarrow> bool" where
  "isArray (Some (JArr xs)) = True"
| "isArray v = False"

fun elements :: "json option \<Rightarrow> json list" where
  "elements (Some (JArr xs)) = xs"
| "elements v = []"

fun isString :: "json option \<Rightarrow> bool" where
  "isString (Some (JStr s)) = True"
| "isString v = False"

fun chars :: "json option \<Rightarrow> string" where
  "chars (Some (JStr s)) = s"
| "chars v = []"

text \<open>Object spread \<^verbatim>\<open>{ ...v }\<close>: the own properties of an object; the elements of
  an array and the characters of a string under their indices; nothing for
  every other value.\<close>

fun index_key :: "nat \<Rightarrow> string" where
  "index_key n =
     (if n < 10 then [''0123456789'' ! n]
      else index_key (n div 10) @ [''0123456789'' ! (n mod 10)])"

declare index_key.simps [simp del]

fun spread :: "json option \<Rightarrow> (string \<times> json) list" where
  "spread (Some (JObj fs)) = fs"
| "spread (Some (JArr xs)) = map (\<lambda>i. (index_key i, xs ! i)) [0..<length xs]"
| "spread (Some (JStr s)) = map (\<lambda>i. (index_key i, JStr [s ! i])) [0..<length s]"
| "spread v = []"

text \<open>A property written after the spread, \<^verbatim>\<open>{ ...v, k: x }\<close>.\<close>

fun obj_set :: "string \<Rightarrow> json \<Rightarrow> (string \<times> json) list \<Rightarrow> (string \<times> json) list" where
  "obj_set k x [] = [(k, x)]"
| "obj_set k x (p # fs) = (if fst p = k then (k, x) # fs else p # obj_set k x fs)"

subsection \<open>The insert schemas\<close>

text \<open>
  \<^verbatim>\<open>createInsertSchema(table).pick(...)\<close> gives an object schema with one entry
  per picked column: a string for a \<^verbatim>\<open>text\<close> column, a number for a
  \<^verbatim>\<open>doublePrecision\<close> column, an integral number for an \<^verbatim>\<open>integer\<close> column; the
  nullable column may also be \<^verbatim>\<open>null\<close> or missing.  \<^verbatim>\<open>parse\<close> keeps the picked
  properties, drops every other one, and throws a \<^verbatim>\<open>ZodError\<close> that lists the
  properties in violation.  Bounds that the schema generator may put on the size
  of a number are left out, so the model accepts at least what the schema accepts.
\<close>

fun z_string :: "json option \<Rightarrow> string option" where
  "z_string (Some (JStr s)) = Some s"
| "z_string v = None"

fun z_number :: "json option \<Rightarrow> real option" where
  "z_number (Some (JNum r)) = Some r"
| "z_number v = None"

fun z_integer :: "json option \<Rightarrow> int option" where
  "z_integer (Some (JNum r)) = (if r = of_int \<lfloor>r\<rfloor> then Some \<lfloor>r\<rfloor> else None)"
| "z_integer v = None"

fun z_nullable_string :: "json option \<Rightarrow> nullable_text option" where
  "z_nullable_string None = Some Absent"
| "z_nullable_string (Some JNull) = Some Null"
| "z_nullable_string (Some (JStr s)) = Some (Text s)"
| "z_nullable_string v = None"

definition issue :: "string \<Rightarrow> 'a option \<Rightarrow> string list" where
  "issue k r = (case r of None \<Rightarrow> [k] | Some v \<Rightarrow> [])"

definition insertOrderSchema_parse :: "(string \<times> json) list \<Rightarrow> exn + insert_order" where
  "insertOrderSchema_parse fs =
     (let uid = z_integer (map_of fs ''userId'');
          cn = z_string (map_of fs ''customerName'');
          cp = z_string (map_of fs ''customerPhone'');
          ot = z_string (map_of fs ''orderType'');
          si = z_nullable_string (map_of fs ''specialInstructions'');
          sub = z_number (map_of fs ''subtotal'');
          tx = z_number (map_of fs ''tax'');
          tot = z_number (map_of fs ''total'');
          issues = issue ''userId'' uid @ issue ''customerName'' cn @
            issue ''customerPhone'' cp @ issue ''orderType'' ot @
            issue ''specialInstructions'' si @ issue ''subtotal'' sub @
            issue ''tax'' tx @ issue ''total'' tot
      in if issues = []
         then Inr \<lparr>userId = the uid, customerName = the cn, customerPhone = the cp,
                   orderType = the ot, specialInstructions = the si,
                   subtotal = the sub, tax = the tx, total = the tot\<rparr>
         else Inl (ZodError issues))"

definition insertOrderItemSchema_parse :: "(string \<times> json) list \<Rightarrow> exn + insert_order_item" where
  "insertOrderItemSchema_parse fs =
     (let oid = z_integer (map_of fs ''orderId'');
          mid = z_integer (map_of fs ''menuItemId'');
          nm = z_string (map_of fs ''name'');
          pr = z_number (map_of fs ''price'');
          qty = z_integer (map_of fs ''quantity'');
          issues = issue ''orderId'' oid @ issue ''menuItemId'' mid @ issue ''name'' nm @
            issue ''price'' pr @ issue ''quantity'' qty
      in if issues = []
         then Inr \<lparr>orderId = the oid, menuItemId = the mid, item_name = the nm,
                   item_price = the pr, quantity = the qty\<rparr>
         else Inl (ZodError issues))"

subsection \<open>Responses\<close>

datatype payload =
    Message string
  | Invalid string "string list"
  | OrderBody order

record response =
  code :: nat
  payload :: payload

definition respond :: "nat \<Rightarrow> payload \<Rightarrow> response" where
  "respond c p = \<lparr>code = c, payload = p\<rparr>"

subsection \<open>\<^verbatim>\<open>POST /api/orders\<close>\<close>

text \<open>An object literal whose property is absent when the value read for it is
  \<^verbatim>\<open>undefined\<close>: the schema treats both alike.\<close>

definition literal :: "(string \<times> json option) list \<Rightarrow> (string \<times> json) list" where
  "literal kvs = concat (map (\<lambda>(k, v). case v of None \<Rightarrow> [] | Some x \<Rightarrow> [(k, x)]) kvs)"

definition cart_item :: "json \<Rightarrow> exn + insert_order_item" where
  "cart_item item =
     (case js_prop ''id'' item of
        Inl e \<Rightarrow> Inl e
      | Inr i \<Rightarrow>
     (case js_prop ''name'' item of
        Inl e \<Rightarrow> Inl e
      | Inr n \<Rightarrow>
     (case js_prop ''price'' item of
        Inl e \<Rightarrow> Inl e
      | Inr p \<Rightarrow>
     (case js_prop ''quantity'' item of
        Inl e \<Rightarrow> Inl e
      | Inr q \<Rightarrow>
          insertOrderItemSchema_parse
            (literal [(''menuItemId'', i), (''name'', n), (''price'', p),
                      (''quantity'', q), (''orderId'', Some (JNum 0))])))))"

text \<open>\<^verbatim>\<open>cartItems.map(...)\<close>: the first item that throws ends the loop.\<close>

fun cart_items :: "json list \<Rightarrow> exn + insert_order_item list" where
  "cart_items [] = Inr []"
| "cart_items (item # rest) =
     (case cart_item item of
        Inl e \<Rightarrow> Inl e
      | Inr x \<Rightarrow> (case cart_items rest of Inl e \<Rightarrow> Inl e | Inr xs \<Rightarrow> Inr (x # xs)))"

text \<open>
  The handler behind the \<^verbatim>\<open>isAuthenticated\<close> middleware.  \<open>req_user\<close> is
  \<^verbatim>\<open>req.user\<close>, \<open>None\<close> for a request without a session; \<open>body\<close> is
  \<^verbatim>\<open>req.body\<close>; \<open>now\<close> is the clock.  An exception other than a \<^verbatim>\<open>ZodError\<close> is
  answered with 500.
\<close>

definition post_orders ::
  "user option \<Rightarrow> json \<Rightarrow> int \<Rightarrow> MemStorage \<Rightarrow> response \<times> MemStorage" where
  "post_orders req_user body now s =
     (case req_user of
        None \<Rightarrow> (respond 401 (Message ''Unauthorized''), s)
      | Some u \<Rightarrow>
     (case js_prop ''orderDetails'' body of
        Inl e \<Rightarrow> (respond 500 (Message ''Error creating order''), s)
      | Inr orderDetails \<Rightarrow>
     (case js_prop ''cartItems'' body of
        Inl e \<Rightarrow> (respond 500 (Message ''Error creating order''), s)
      | Inr cartItems \<Rightarrow>
          if \<not> truthy cartItems \<or> \<not> isArray cartItems \<or> length (elements cartItems) = 0
          then (respond 400 (Message ''Cart cannot be empty''), s)
          else
     (case insertOrderSchema_parse
             (obj_set ''userId'' (JNum (of_int (user_id u))) (spread orderDetails)) of
        Inl (ZodError errors) \<Rightarrow> (respond 400 (Invalid ''Invalid order data'' errors), s)
      | Inl TypeError \<Rightarrow> (respond 500 (Message ''Error creating order''), s)
      | Inr validatedOrderDetails \<Rightarrow>
     (case cart_items (elements cartItems) of
        Inl (ZodError errors) \<Rightarrow> (respond 400 (Invalid ''Invalid order data'' errors), s)
      | Inl TypeError \<Rightarrow> (respond 500 (Message ''Error creating order''), s)
      | Inr orderItems' \<Rightarrow>
          (let (ord, s') = createOrder validatedOrderDetails orderItems' now s
           in (respond 201 (OrderBody ord), s')))))))"

subsection \<open>\<^verbatim>\<open>PATCH /api/orders/:id/status\<close>\<close>

text \<open>
  The handler behind the \<^verbatim>\<open>isAdmin\<close> middleware.  \<open>ident\<close> is
  \<^verbatim>\<open>parseInt(req.params.id)\<close>, \<open>None\<close> for \<^verbatim>\<open>NaN\<close>.
\<close>

definition valid_statuses :: "string list" where
  "valid_statuses = [''new'', ''preparing'', ''ready'', ''completed'']"

definition patch_order_status ::
  "user option \<Rightarrow> int option \<Rightarrow> json \<Rightarrow> MemStorage \<Rightarrow> response \<times> MemStorage" where
  "patch_order_status req_user ident body s =
     (if \<not> (case req_user of None \<Rightarrow> False | Some u \<Rightarrow> isAdmin u = Some True)
      then (respond 403 (Message ''Forbidden - Admin access required''), s)
      else
     (case js_prop ''status'' body of
        Inl e \<Rightarrow> (respond 500 (Message ''Error updating order status''), s)
      | Inr st \<Rightarrow>
     (case ident of
        None \<Rightarrow> (respond 400 (Message ''Invalid ID''), s)
      | Some i \<Rightarrow>
          if \<not> truthy st \<or> \<not> isString st
          then (respond 400 (Message ''Status is required''), s)
          else if chars st \<notin> set valid_statuses
          then (respond 400 (Message ''Invalid status''), s)
          else
     (case updateOrderStatus i (chars st) s of
        (None, s') \<Rightarrow> (respond 404 (Message ''Order not found''), s')
      | (Some updatedOrder, s') \<Rightarrow> (respond 200 (OrderBody updatedOrder), s')))))"

section \<open>Invariants and reachable stores\<close>

text \<open>
  Every entry of a map is stored under its own id, below the counter, and the
  keys increase in iteration order.
\<close>

definition entries_ok :: "('v \<Rightarrow> int) \<Rightarrow> int \<Rightarrow> 'v jsmap \<Rightarrow> bool" where
  "entries_ok ident c m \<longleftrightarrow>
     list_all (\<lambda>p. ident (snd p) = fst p \<and> fst p < c) m \<and> sorted_wrt (<) (map fst m)"

definition store_inv :: "MemStorage \<Rightarrow> bool" where
  "store_inv s \<longleftrightarrow>
     entries_ok user_id (userIdCounter s) (users s) \<and>
     entries_ok menu_id (menuItemIdCounter s) (menuItems s) \<and>
     entries_ok order_id (orderIdCounter s) (orders s) \<and>
     entries_ok item_id (orderItemIdCounter s) (orderItems s) \<and>
     list_all (\<lambda>p. orderId (snd p) < orderIdCounter s) (orderItems s)"

text \<open>The order items that the loop of \<^verbatim>\<open>createOrder\<close> builds for the order \<open>oid\<close>
  when the item counter stands at \<open>c\<close>.\<close>

fun stamp_items :: "int \<Rightarrow> int \<Rightarrow> insert_order_item list \<Rightarrow> order_item list" where
  "stamp_items oid c [] = []"
| "stamp_items oid c (item # items) =
     \<lparr>orderId = oid, menuItemId = menuItemId item, item_name = item_name item,
      item_price = item_price item, quantity = quantity item, item_id = c\<rparr>
     # stamp_items oid (c + 1) items"

inductive reachable :: "MemStorage \<Rightarrow> bool" where
  constructed: "reachable MemStorage_new"
| called: "reachable s \<Longrightarrow> reachable (exec c s)"

definition constructor_calls :: "store_call list" where
  "constructor_calls = CreateUser admin_user # map CreateMenuItem seed_items"

text \<open>No two users have the same user name up to the case of the letters.\<close>

definition usernames_unique :: "MemStorage \<Rightarrow> bool" where
  "usernames_unique s \<longleftrightarrow>
     distinct (map (\<lambda>u. toLowerCase (username u)) (map_values (users s)))"

text \<open>The stores reached when \<^verbatim>\<open>createUser\<close> is only called for a name that
  \<^verbatim>\<open>getUserByUsername\<close> does not find.\<close>

inductive guarded :: "MemStorage \<Rightarrow> bool" where
  g_constructed: "guarded MemStorage_new"
| g_createUser:
    "guarded s \<Longrightarrow> getUserByUsername (username u) s = None \<Longrightarrow>
     guarded (exec (CreateUser u) s)"
| g_createMenuItem: "guarded s \<Longrightarrow> guarded (exec (CreateMenuItem m) s)"
| g_updateMenuItem: "guarded s \<Longrightarrow> guarded (exec (UpdateMenuItem i p) s)"
| g_deleteMenuItem: "guarded s \<Longrightarrow> guarded (exec (DeleteMenuItem i) s)"
| g_createOrder: "guarded s \<Longrightarrow> guarded (exec (CreateOrder ord items now) s)"
| g_updateOrderStatus: "guarded s \<Longrightarrow> guarded (exec (UpdateOrderStatus i st) s)"

section \<open>An example store\<close>

text \<open>The order of the scenario in the specification, placed three times: by user
  1 at time 1000, by user 2 at time 3000 and by user 1 again at time 2000.\<close>

definition example_order :: "int \<Rightarrow> insert_order" where
  "example_order uid =
     \<lparr>userId = uid, customerName = ''A'', customerPhone = ''1234567890'',
      orderType = ''pickup'', specialInstructions = Absent,
      subtotal = 3, tax = 0.21, total = 3.21\<rparr>"

definition example_item :: insert_order_item where
  "example_item =
     \<lparr>orderId = 0, menuItemId = 6, item_name = ''Tea'', item_price = 1.5, quantity = 2\<rparr>"

definition example_store :: MemStorage where
  "example_store =
     run [CreateOrder (example_order 1) [example_item, example_item] 1000,
          CreateOrder (example_order 2) [example_item] 3000,
          CreateOrder (example_order 1) [example_item] 2000] MemStorage_new"

text \<open>The default admin as \<^verbatim>\<open>req.user\<close>, and a request body for
  \<^verbatim>\<open>POST /api/orders\<close> whose \<^verbatim>\<open>orderDetails\<close> name another owner and a total that
  is neither the sum of subtotal and tax nor in line with the cart.\<close>

definition admin :: user where
  "admin =
     \<lparr>username = ''admin@milestar.com'', password = ''admin123'', user_name = ''Admin'',
      isAdmin = Some True, user_id = 1\<rparr>"

definition mismatched_body :: json where
  "mismatched_body =
     JObj [(''orderDetails'',
            JObj [(''userId'', JNum 999), (''customerName'', JStr ''A''),
                  (''customerPhone'', JStr ''1234567890''), (''orderType'', JStr ''pickup''),
                  (''subtotal'', JNum 1), (''tax'', JNum 0), (''total'', JNum 100)]),
           (''cartItems'',
            JArr [JObj [(''id'', JNum 6), (''name'', JStr ''Tea''), (''price'', JNum 5),
                        (''quantity'', JNum 2)]])]"

section \<open>Properties\<close>

subsection \<open>Auxiliary facts about the store\<close>

lemma map_of_map_set: "map_of (map_set k v m) = (map_of m)(k \<mapsto> v)"
  by (induction m) (auto simp: fun_eq_iff)

lemma map_get_map_set: "map_get (map_set k v m) k' = (if k' = k then Some v else map_get m k')"
  by (simp add: map_get_def map_of_map_set)

lemma map_set_fresh: "k \<notin> fst ` set m \<Longrightarrow> map_set k v m = m @ [(k, v)]"
  by (induction m) auto

lemma map_set_present: "k \<in> fst ` set m \<Longrightarrow> map fst (map_set k v m) = map fst m"
  by (induction m) auto

lemma list_all_map_set: "list_all P m \<Longrightarrow> P (k, v) \<Longrightarrow> list_all P (map_set k v m)"
  by (induction m) auto

lemma entries_ok_fresh: "entries_ok ident c m \<Longrightarrow> c \<notin> fst ` set m"
  by (auto simp: entries_ok_def list_all_iff)

lemma entries_ok_append:
  assumes "entries_ok ident c m" "ident v = c"
  shows "entries_ok ident (c + 1) (map_set c v m)"
proof -
  have fresh: "map_set c v m = m @ [(c, v)]"
    using assms(1) by (simp add: entries_ok_fresh map_set_fresh)
  show ?thesis using assms unfolding fresh entries_ok_def
    by (auto simp: list_all_iff sorted_wrt_append)
qed

lemma entries_ok_replace:
  assumes "entries_ok ident c m" "map_get m k = Some v0" "ident v = k"
  shows "entries_ok ident c (map_set k v m)"
proof -
  have "k \<in> fst ` set m" using assms(2) by (auto simp: map_get_def dest: map_of_SomeD intro: rev_image_eqI)
  then have keys: "map fst (map_set k v m) = map fst m" by (rule map_set_present)
  have "(k, v0) \<in> set m" using assms(2) by (auto simp: map_get_def dest: map_of_SomeD)
  then have "k < c" using assms(1) by (auto simp: entries_ok_def list_all_iff)
  then have "list_all (\<lambda>p. ident (snd p) = fst p \<and> fst p < c) (map_set k v m)"
    using assms by (intro list_all_map_set) (auto simp: entries_ok_def)
  then show ?thesis using assms(1) by (simp add: entries_ok_def keys)
qed

lemma entries_ok_filter: "entries_ok ident c m \<Longrightarrow> entries_ok ident c (filter P m)"
  by (auto simp: entries_ok_def list_all_iff sorted_wrt_map sorted_wrt_filter)

lemma entries_ok_mono: "entries_ok ident c m \<Longrightarrow> c \<le> c' \<Longrightarrow> entries_ok ident c' m"
  by (fastforce simp: entries_ok_def list_all_iff)

lemma length_stamp_items: "length (stamp_items oid c items) = length items"
  by (induction items arbitrary: c) auto

lemma stamp_items_orderId: "x \<in> set (stamp_items oid c items) \<Longrightarrow> orderId x = oid"
  by (induction items arbitrary: c) auto

lemma stamp_items_ids: "map item_id (stamp_items oid c items) = map (\<lambda>k. c + int k) [0..<length items]"
proof (induction items arbitrary: c)
  case Nil show ?case by simp
next
  case (Cons a items)
  have "map (\<lambda>k. c + int k) [0..<Suc (length items)] = c # map (\<lambda>k. c + 1 + int k) [0..<length items]"
    by (simp add: upt_conv_Cons map_Suc_upt[symmetric] del: upt_Suc)
  then show ?case using Cons.IH[of "c + 1"] by simp
qed

lemma stamp_items_id_bounds:
  "x \<in> set (stamp_items oid c items) \<Longrightarrow> c \<le> item_id x \<and> item_id x < c + int (length items)"
  by (induction items arbitrary: c) fastforce+

lemma stamp_items_sorted: "sorted_wrt (<) (map item_id (stamp_items oid c items))"
proof (induction items arbitrary: c)
  case Nil show ?case by simp
next
  case (Cons a items)
  have "c < item_id x" if "x \<in> set (stamp_items oid (c + 1) items)" for x
    using stamp_items_id_bounds[OF that] by simp
  then show ?case using Cons.IH[of "c + 1"] by auto
qed

lemma addOrderItems_eq:
  assumes "entries_ok item_id (orderItemIdCounter s) (orderItems s)"
  shows "addOrderItems oid items s =
     (stamp_items oid (orderItemIdCounter s) items,
      s\<lparr>orderItemIdCounter := orderItemIdCounter s + int (length items),
        orderItems := orderItems s @ map (\<lambda>i. (item_id i, i)) (stamp_items oid (orderItemIdCounter s) items)\<rparr>)"
  using assms
proof (induction items arbitrary: s)
  case Nil
  then show ?case by simp
next
  case (Cons a items)
  let ?c = "orderItemIdCounter s"
  let ?it = "\<lparr>orderId = oid, menuItemId = menuItemId a, item_name = item_name a,
      item_price = item_price a, quantity = quantity a, item_id = ?c\<rparr>"
  let ?s2 = "s\<lparr>orderItemIdCounter := ?c + 1, orderItems := map_set ?c ?it (orderItems s)\<rparr>"
  have fresh: "map_set ?c ?it (orderItems s) = orderItems s @ [(?c, ?it)]"
    using Cons.prems by (simp add: entries_ok_fresh map_set_fresh)
  have ok2: "entries_ok item_id (orderItemIdCounter ?s2) (orderItems ?s2)"
    using entries_ok_append[OF Cons.prems, of ?it] by simp
  show ?case
    using Cons.IH[OF ok2] by (simp add: Let_def fresh)
qed

lemma entries_okD:
  "entries_ok ident c m \<Longrightarrow> map_get m k = Some v \<Longrightarrow> ident v = k \<and> k < c"
  by (auto simp: entries_ok_def list_all_iff map_get_def dest!: map_of_SomeD)

lemma entries_ok_stamp:
  assumes "entries_ok item_id c m"
  shows "entries_ok item_id (c + int (length items))
           (m @ map (\<lambda>i. (item_id i, i)) (stamp_items oid c items))"
proof -
  have a: "list_all (\<lambda>p. item_id (snd p) = fst p \<and> fst p < c + int (length items)) m"
    using assms by (fastforce simp: entries_ok_def list_all_iff)
  have b: "list_all (\<lambda>p. item_id (snd p) = fst p \<and> fst p < c + int (length items))
             (map (\<lambda>i. (item_id i, i)) (stamp_items oid c items))"
    using stamp_items_id_bounds[of _ oid c items] by (auto simp: list_all_iff)
  have c: "sorted_wrt (<) (map fst m @ map item_id (stamp_items oid c items))"
    using assms stamp_items_sorted[of oid c items] stamp_items_id_bounds[of _ oid c items]
    by (fastforce simp: sorted_wrt_append entries_ok_def list_all_iff)
  show ?thesis unfolding entries_ok_def using a b c by (simp add: comp_def)
qed

lemma store_inv_createUser: "store_inv s \<Longrightarrow> store_inv (snd (createUser u s))"
  by (simp add: store_inv_def createUser_def Let_def entries_ok_append)

lemma store_inv_createMenuItem: "store_inv s \<Longrightarrow> store_inv (snd (createMenuItem m s))"
  by (simp add: store_inv_def createMenuItem_def Let_def entries_ok_append)

lemma store_inv_updateMenuItem: "store_inv s \<Longrightarrow> store_inv (snd (updateMenuItem i p s))"
proof (cases "map_get (menuItems s) i")
  case None
  then show "store_inv s \<Longrightarrow> ?thesis" by (simp add: updateMenuItem_def)
next
  case (Some e)
  assume inv: "store_inv s"
  then have "menu_id e = i" using Some entries_okD[of menu_id "menuItemIdCounter s" "menuItems s" i e]
    by (simp add: store_inv_def)
  then have "entries_ok menu_id (menuItemIdCounter s) (map_set i (merge_menu_item e p) (menuItems s))"
    using inv Some by (intro entries_ok_replace[where ?v0.0 = e]) (auto simp: store_inv_def merge_menu_item_def)
  then show ?thesis using inv Some by (simp add: updateMenuItem_def store_inv_def Let_def)
qed

lemma store_inv_deleteMenuItem: "store_inv s \<Longrightarrow> store_inv (snd (deleteMenuItem i s))"
  by (simp add: store_inv_def deleteMenuItem_def map_delete_def entries_ok_filter)

lemma store_inv_updateOrderStatus: "store_inv s \<Longrightarrow> store_inv (snd (updateOrderStatus i st s))"
proof (cases "map_get (orders s) i")
  case None
  then show "store_inv s \<Longrightarrow> ?thesis" by (simp add: updateOrderStatus_def)
next
  case (Some e)
  assume inv: "store_inv s"
  then have "order_id e = i" using Some entries_okD[of order_id "orderIdCounter s" "orders s" i e]
    by (simp add: store_inv_def)
  then have "entries_ok order_id (orderIdCounter s) (map_set i (e\<lparr>status := Some st\<rparr>) (orders s))"
    using inv Some by (intro entries_ok_replace[where ?v0.0 = e]) (auto simp: store_inv_def)
  then show ?thesis using inv Some by (simp add: updateOrderStatus_def store_inv_def Let_def)
qed

text \<open>What \<^verbatim>\<open>createOrder\<close> does to a store that satisfies the invariant.\<close>

lemma createOrder_eq:
  assumes "store_inv s"
  shows "createOrder ord items now s =
     (\<lparr>userId = userId ord, customerName = customerName ord,
       customerPhone = customerPhone ord, orderType = orderType ord,
       specialInstructions = specialInstructions ord, subtotal = subtotal ord,
       tax = tax ord, total = total ord,
       order_id = orderIdCounter s, createdAt = now, status = None\<rparr>,
      s\<lparr>orderIdCounter := orderIdCounter s + 1,
        orders := orders s @ [(orderIdCounter s,
          \<lparr>userId = userId ord, customerName = customerName ord,
           customerPhone = customerPhone ord, orderType = orderType ord,
           specialInstructions = specialInstructions ord, subtotal = subtotal ord,
           tax = tax ord, total = total ord,
           order_id = orderIdCounter s, createdAt = now, status = None\<rparr>)],
        orderItemIdCounter := orderItemIdCounter s + int (length items),
        orderItems := orderItems s @
          map (\<lambda>i. (item_id i, i)) (stamp_items (orderIdCounter s) (orderItemIdCounter s) items)\<rparr>)"
proof -
  have fresh: "orderIdCounter s \<notin> fst ` set (orders s)"
    using assms entries_ok_fresh[of order_id "orderIdCounter s" "orders s"]
    by (simp add: store_inv_def)
  have items_ok: "entries_ok item_id (orderItemIdCounter s) (orderItems s)"
    using assms by (simp add: store_inv_def)
  show ?thesis
    by (simp add: createOrder_def Let_def addOrderItems_eq items_ok map_set_fresh[OF fresh])
qed

lemma store_inv_createOrder:
  assumes "store_inv s"
  shows "store_inv (snd (createOrder ord items now s))"
proof -
  have o: "entries_ok order_id (orderIdCounter s + 1) (orders s @ [(orderIdCounter s, v)])"
    if "order_id v = orderIdCounter s" for v
    using assms entries_ok_append[of order_id "orderIdCounter s" "orders s" v] that
      entries_ok_fresh[of order_id "orderIdCounter s" "orders s"]
    by (simp add: store_inv_def map_set_fresh)
  have i: "entries_ok item_id (orderItemIdCounter s + int (length items))
       (orderItems s @ map (\<lambda>i. (item_id i, i)) (stamp_items (orderIdCounter s) (orderItemIdCounter s) items))"
    using assms by (simp add: store_inv_def entries_ok_stamp)
  have r: "list_all (\<lambda>p. orderId (snd p) < orderIdCounter s + 1)
       (orderItems s @ map (\<lambda>i. (item_id i, i)) (stamp_items (orderIdCounter s) (orderItemIdCounter s) items))"
    using assms stamp_items_orderId[of _ "orderIdCounter s" "orderItemIdCounter s" items]
    by (fastforce simp: store_inv_def list_all_iff)
  show ?thesis
    using assms o i r by (simp add: createOrder_eq store_inv_def)
qed

lemma store_inv_exec: "store_inv s \<Longrightarrow> store_inv (exec c s)"
  by (cases c) (simp_all add: store_inv_createUser store_inv_createMenuItem
      store_inv_updateMenuItem store_inv_deleteMenuItem store_inv_createOrder
      store_inv_updateOrderStatus)

lemma store_inv_run: "store_inv s \<Longrightarrow> store_inv (run cs s)"
  by (induction cs arbitrary: s) (simp_all add: store_inv_exec)

lemma store_inv_empty: "store_inv empty_store"
  by (simp add: store_inv_def empty_store_def entries_ok_def)

lemma store_inv_fold_create:
  "store_inv s \<Longrightarrow> store_inv (fold (\<lambda>item s'. snd (createMenuItem item s')) xs s)"
  by (induction xs arbitrary: s) (simp_all add: store_inv_createMenuItem)

lemma store_inv_new: "store_inv MemStorage_new"
  unfolding MemStorage_new_def seedMenuItems_def
  by (intro store_inv_fold_create store_inv_createUser store_inv_empty)

lemma reachable_inv: "reachable s \<Longrightarrow> store_inv s"
  by (induction rule: reachable.induct) (simp_all add: store_inv_new store_inv_exec)

lemma reachable_run: "reachable s \<Longrightarrow> reachable (run cs s)"
  by (induction cs arbitrary: s) (simp_all add: reachable.called)

lemma map_get_fresh_append: "k \<notin> fst ` set m \<Longrightarrow> map_get (m @ [(k, v)]) k = Some v"
  by (induction m) (auto simp: map_get_def)

lemma map_get_absent: "k \<notin> fst ` set m \<Longrightarrow> map_get m k = None"
  by (simp add: map_get_def map_of_eq_None_iff)

lemma filter_stamp_items:
  "filter (\<lambda>item. orderId item = oid) (stamp_items oid c items) = stamp_items oid c items"
  by (induction items arbitrary: c) auto

lemma getOrderWithItems_before:
  assumes "store_inv s"
  shows "getOrderWithItems (orderIdCounter s) s = None"
  using assms entries_ok_fresh[of order_id "orderIdCounter s" "orders s"]
  by (simp add: getOrderWithItems_def store_inv_def map_get_absent)

lemma getOrderWithItems_createOrder:
  assumes "store_inv s"
  shows "getOrderWithItems (orderIdCounter s) (snd (createOrder ord items now s)) =
     Some (fst (createOrder ord items now s),
           stamp_items (orderIdCounter s) (orderItemIdCounter s) items)"
proof -
  have fresh: "orderIdCounter s \<notin> fst ` set (orders s)"
    using assms entries_ok_fresh[of order_id "orderIdCounter s" "orders s"]
    by (simp add: store_inv_def)
  have old: "filter (\<lambda>item. orderId item = orderIdCounter s) (map snd (orderItems s)) = []"
    using assms by (auto simp: store_inv_def list_all_iff filter_empty_conv)
  show ?thesis
    by (simp add: createOrder_eq[OF assms] getOrderWithItems_def map_values_def
        map_get_fresh_append[OF fresh] old comp_def filter_stamp_items)
qed

lemma createOrder_id: "order_id (fst (createOrder ord items now s)) = orderIdCounter s"
  by (simp add: createOrder_def Let_def)

lemma fst_addOrderItems:
  "fst (addOrderItems oid items s) = stamp_items oid (orderItemIdCounter s) items"
  by (induction items arbitrary: s) (simp_all add: Let_def split_beta)

lemma createOrder_items_eq:
  "createOrder_items ord items now s =
     stamp_items (orderIdCounter s) (orderItemIdCounter s) items"
  by (simp add: createOrder_items_def Let_def fst_addOrderItems)

lemma map_set_mem: "(k, v) \<in> set (map_set k v m)"
  by (induction m) auto

lemma assigned_bounds:
  assumes "store_inv s"
  shows "sorted_wrt (<) (assigned e c s) \<and>
         (\<forall>i\<in>set (assigned e c s). counter e s \<le> i \<and> i < counter e (exec c s))"
proof (cases c)
  case (CreateUser u)
  then show ?thesis by (cases e) (simp_all add: createUser_def Let_def)
next
  case (CreateMenuItem m)
  then show ?thesis by (cases e) (simp_all add: createMenuItem_def Let_def)
next
  case (UpdateMenuItem i p)
  then show ?thesis by (cases e) simp_all
next
  case (DeleteMenuItem i)
  then show ?thesis by (cases e) simp_all
next
  case (CreateOrder ord items now)
  show ?thesis
  proof (cases e)
    case OrderItems
    have "assigned OrderItems (CreateOrder ord items now) s =
            map item_id (stamp_items (orderIdCounter s) (orderItemIdCounter s) items)"
      by (simp add: createOrder_items_eq)
    moreover have "orderItemIdCounter (snd (createOrder ord items now s)) =
            orderItemIdCounter s + int (length items)"
      by (simp add: createOrder_eq[OF assms])
    ultimately show ?thesis
      using OrderItems CreateOrder stamp_items_sorted[of "orderIdCounter s" "orderItemIdCounter s" items]
        stamp_items_id_bounds[of _ "orderIdCounter s" "orderItemIdCounter s" items]
      by auto
  qed (simp_all add: CreateOrder createOrder_eq[OF assms])
next
  case (UpdateOrderStatus i st)
  then show ?thesis by (cases e) simp_all
qed

lemma counter_exec_mono:
  assumes "store_inv s"
  shows "counter e s \<le> counter e (exec c s)"
proof (cases c)
  case (CreateUser u)
  then show ?thesis by (cases e) (simp_all add: createUser_def Let_def)
next
  case (CreateMenuItem m)
  then show ?thesis by (cases e) (simp_all add: createMenuItem_def Let_def)
next
  case (UpdateMenuItem i p)
  then show ?thesis
    by (cases e) (simp_all add: updateMenuItem_def Let_def split: option.splits)
next
  case (DeleteMenuItem i)
  then show ?thesis
    by (cases e) (simp_all add: deleteMenuItem_def map_delete_def)
next
  case (CreateOrder ord items now)
  then show ?thesis by (cases e) (simp_all add: createOrder_eq[OF assms])
next
  case (UpdateOrderStatus i st)
  then show ?thesis
    by (cases e) (simp_all add: updateOrderStatus_def Let_def split: option.splits)
qed

lemma history_increasing:
  assumes "store_inv s"
  shows "sorted_wrt (<) (history e cs s) \<and> (\<forall>i\<in>set (history e cs s). counter e s \<le> i)"
  using assms
proof (induction cs arbitrary: s)
  case Nil
  show ?case by simp
next
  case (Cons c cs)
  note a = assigned_bounds[OF Cons.prems, of e c]
  note m = counter_exec_mono[OF Cons.prems, of e c]
  note ih = Cons.IH[OF store_inv_exec[OF Cons.prems, of c]]
  have "i < j" if "i \<in> set (assigned e c s)" "j \<in> set (history e cs (exec c s))" for i j
    using a ih that by fastforce
  moreover have "counter e s \<le> j" if "j \<in> set (history e cs (exec c s))" for j
    using ih m that by fastforce
  ultimately show ?case using a ih by (auto simp: sorted_wrt_append)
qed

lemma run_CreateMenuItems:
  "run (map CreateMenuItem xs) s = fold (\<lambda>item s'. snd (createMenuItem item s')) xs s"
  by (induction xs arbitrary: s) simp_all

lemma MemStorage_new_run: "MemStorage_new = run constructor_calls empty_store"
  by (simp add: MemStorage_new_def seedMenuItems_def constructor_calls_def run_CreateMenuItems)

lemma run_append: "run (cs @ ds) s = run ds (run cs s)"
  by (induction cs arbitrary: s) simp_all

lemma history_append: "history e (cs @ ds) s = history e cs s @ history e ds (run cs s)"
  by (induction cs arbitrary: s) simp_all

lemma stored_ids_distinct:
  assumes "store_inv s"
  shows "distinct (stored_ids e s)"
proof -
  have *: "distinct (map ident (map_values m))" if "entries_ok ident c m" for ident :: "'v \<Rightarrow> int" and c m
  proof -
    have "map ident (map_values m) = map fst m"
      using that by (auto simp: entries_ok_def list_all_iff map_values_def)
    then show ?thesis using that strict_sorted_iff[of "map fst m"] by (simp add: entries_ok_def)
  qed
  show ?thesis using assms by (cases e) (auto simp: store_inv_def intro: *)
qed

lemma filter_map_set_other:
  "filter (\<lambda>p. fst p \<noteq> k) (map_set k v m) = filter (\<lambda>p. fst p \<noteq> k) m"
  by (induction m) auto

lemma map_set_keys_present:
  "map_get m k = Some v0 \<Longrightarrow> map fst (map_set k v m) = map fst m"
  by (rule map_set_present) (auto simp: map_get_def dest!: map_of_SomeD intro: rev_image_eqI)

lemma set_insort_by: "set (insort_by cmp x xs) = insert x (set xs)"
  by (induction xs) auto

lemma mset_insort_by: "mset (insort_by cmp x xs) = add_mset x (mset xs)"
  by (induction xs) auto

lemma mset_sort_by: "mset (sort_by cmp xs) = mset xs"
  by (induction xs) (simp_all add: sort_by_def mset_insort_by)

lemma set_sort_by: "set (sort_by cmp xs) = set xs"
  using mset_sort_by[of cmp xs] by (metis set_mset_mset)

lemma sorted_insort_newest:
  "sorted_wrt (\<lambda>a b. createdAt b \<le> createdAt a) xs \<Longrightarrow>
   sorted_wrt (\<lambda>a b. createdAt b \<le> createdAt a) (insort_by newest_first x xs)"
  by (induction xs) (auto simp: set_insort_by newest_first_def)

lemma sorted_sort_newest:
  "sorted_wrt (\<lambda>a b. createdAt b \<le> createdAt a) (sort_by newest_first xs)"
  by (induction xs) (simp_all add: sort_by_def sorted_insort_newest)

lemma stamp_items_content:
  "map (\<lambda>i. (menuItemId i, item_name i, item_price i, quantity i)) (stamp_items oid c items) =
   map (\<lambda>i. (menuItemId i, item_name i, item_price i, quantity i)) items"
  by (induction items arbitrary: c) auto

lemma addOrderItems_frame:
  "users (snd (addOrderItems oid items s)) = users s \<and>
   menuItems (snd (addOrderItems oid items s)) = menuItems s \<and>
   orders (snd (addOrderItems oid items s)) = orders s \<and>
   userIdCounter (snd (addOrderItems oid items s)) = userIdCounter s \<and>
   menuItemIdCounter (snd (addOrderItems oid items s)) = menuItemIdCounter s \<and>
   orderIdCounter (snd (addOrderItems oid items s)) = orderIdCounter s"
  by (induction items arbitrary: s) (simp_all add: Let_def split_beta)

lemma users_exec_other:
  "(\<forall>u. c \<noteq> CreateUser u) \<Longrightarrow> users (exec c s) = users s"
  by (cases c)
     (simp_all add: createMenuItem_def updateMenuItem_def deleteMenuItem_def map_delete_def
        updateOrderStatus_def createOrder_def Let_def addOrderItems_frame
        split: option.splits prod.splits)

lemma seed_frame:
  "orders (fold (\<lambda>item s'. snd (createMenuItem item s')) xs s) = orders s \<and>
   orderItems (fold (\<lambda>item s'. snd (createMenuItem item s')) xs s) = orderItems s \<and>
   users (fold (\<lambda>item s'. snd (createMenuItem item s')) xs s) = users s \<and>
   orderIdCounter (fold (\<lambda>item s'. snd (createMenuItem item s')) xs s) = orderIdCounter s \<and>
   orderItemIdCounter (fold (\<lambda>item s'. snd (createMenuItem item s')) xs s) = orderItemIdCounter s \<and>
   userIdCounter (fold (\<lambda>item s'. snd (createMenuItem item s')) xs s) = userIdCounter s \<and>
   menuItemIdCounter (fold (\<lambda>item s'. snd (createMenuItem item s')) xs s) =
     menuItemIdCounter s + int (length xs)"
  by (induction xs arbitrary: s) (simp_all add: createMenuItem_def Let_def)

lemma length_seed_items: "length seed_items = 7"
  by (simp add: seed_items_def)

lemma MemStorage_new_facts:
  "orders MemStorage_new = []"
  "orderItems MemStorage_new = []"
  "users MemStorage_new =
     [(1, \<lparr>username = ''admin@milestar.com'', password = ''admin123'', user_name = ''Admin'',
           isAdmin = Some True, user_id = 1\<rparr>)]"
  "orderIdCounter MemStorage_new = 1"
  "orderItemIdCounter MemStorage_new = 1"
  "userIdCounter MemStorage_new = 2"
  "menuItemIdCounter MemStorage_new = 8"
  by (simp_all add: MemStorage_new_def seedMenuItems_def seed_frame createUser_def
      empty_store_def admin_user_def Let_def length_seed_items)

lemma guarded_reachable: "guarded s \<Longrightarrow> reachable s"
  by (induction rule: guarded.induct) (auto intro: reachable.intros simp del: exec.simps)

lemma distinct_map_filter_le1:
  "distinct (map f xs) \<Longrightarrow> length (filter (\<lambda>x. f x = y) xs) \<le> 1"
proof (induction xs)
  case Nil
  show ?case by simp
next
  case (Cons a xs)
  show ?case
  proof (cases "f a = y")
    case True
    then have "filter (\<lambda>x. f x = y) xs = []"
      using Cons.prems by (auto simp: filter_empty_conv intro: rev_image_eqI)
    then show ?thesis using True by simp
  next
    case False
    then show ?thesis using Cons by simp
  qed
qed

lemma usernames_unique_createUser:
  assumes "store_inv s" "usernames_unique s" "getUserByUsername (username u) s = None"
  shows "usernames_unique (exec (CreateUser u) s)"
proof -
  have fresh: "userIdCounter s \<notin> fst ` set (users s)"
    using assms(1) entries_ok_fresh[of user_id "userIdCounter s" "users s"]
    by (simp add: store_inv_def)
  have "\<forall>v\<in>set (map snd (users s)). toLowerCase (username v) \<noteq> toLowerCase (username u)"
    using assms(3) by (simp add: getUserByUsername_def find_None_iff map_values_def)
  then show ?thesis
    using assms(2)
    by (auto simp: usernames_unique_def createUser_def Let_def map_set_fresh[OF fresh]
        map_values_def)
qed

lemma guarded_unique: "guarded s \<Longrightarrow> usernames_unique s"
proof (induction rule: guarded.induct)
  case g_constructed
  show ?case by (simp add: usernames_unique_def MemStorage_new_facts map_values_def)
next
  case (g_createUser s u)
  then show ?case
    using usernames_unique_createUser reachable_inv[OF guarded_reachable] by blast
qed (simp_all add: usernames_unique_def users_exec_other del: exec.simps)

lemma example_store_facts:
  "orders example_store =
     [(1, \<lparr>userId = 1, customerName = ''A'', customerPhone = ''1234567890'',
            orderType = ''pickup'', specialInstructions = Absent,
            subtotal = 3, tax = 0.21, total = 3.21,
            order_id = 1, createdAt = 1000, status = None\<rparr>),
      (2, \<lparr>userId = 2, customerName = ''A'', customerPhone = ''1234567890'',
            orderType = ''pickup'', specialInstructions = Absent,
            subtotal = 3, tax = 0.21, total = 3.21,
            order_id = 2, createdAt = 3000, status = None\<rparr>),
      (3, \<lparr>userId = 1, customerName = ''A'', customerPhone = ''1234567890'',
            orderType = ''pickup'', specialInstructions = Absent,
            subtotal = 3, tax = 0.21, total = 3.21,
            order_id = 3, createdAt = 2000, status = None\<rparr>)]"
  "orderItems example_store =
     [(1, \<lparr>orderId = 1, menuItemId = 6, item_name = ''Tea'', item_price = 1.5,
            quantity = 2, item_id = 1\<rparr>),
      (2, \<lparr>orderId = 1, menuItemId = 6, item_name = ''Tea'', item_price = 1.5,
            quantity = 2, item_id = 2\<rparr>),
      (3, \<lparr>orderId = 2, menuItemId = 6, item_name = ''Tea'', item_price = 1.5,
            quantity = 2, item_id = 3\<rparr>),
      (4, \<lparr>orderId = 3, menuItemId = 6, item_name = ''Tea'', item_price = 1.5,
            quantity = 2, item_id = 4\<rparr>)]"
  "orderIdCounter example_store = 4"
  "orderItemIdCounter example_store = 5"
  "menuItemIdCounter example_store = 8"
  by (simp_all add: example_store_def example_order_def example_item_def createOrder_def
      Let_def MemStorage_new_facts)

lemma reachable_example: "reachable example_store"
  unfolding example_store_def by (intro reachable_run reachable.constructed)

lemma assigned_stored:
  assumes "store_inv s"
  shows "set (assigned e c s) \<subseteq> set (stored_ids e (exec c s))"
proof (cases c)
  case (CreateUser u)
  show ?thesis
  proof (cases e)
    case Users
    let ?u = "fst (createUser u s)"
    have "(userIdCounter s, ?u) \<in> set (users (snd (createUser u s)))"
      by (simp add: createUser_def Let_def map_set_mem)
    then have "user_id ?u \<in> set (map user_id (map_values (users (snd (createUser u s)))))"
      by (force simp: map_values_def)
    then show ?thesis using Users CreateUser by simp
  qed (simp_all add: CreateUser)
next
  case (CreateMenuItem m)
  show ?thesis
  proof (cases e)
    case MenuItems
    let ?m = "fst (createMenuItem m s)"
    have "(menuItemIdCounter s, ?m) \<in> set (menuItems (snd (createMenuItem m s)))"
      by (simp add: createMenuItem_def Let_def map_set_mem)
    then have "menu_id ?m \<in>
        set (map menu_id (map_values (menuItems (snd (createMenuItem m s)))))"
      by (force simp: map_values_def)
    then show ?thesis using MenuItems CreateMenuItem by simp
  qed (simp_all add: CreateMenuItem)
next
  case (UpdateMenuItem i p)
  then show ?thesis by (cases e) simp_all
next
  case (DeleteMenuItem i)
  then show ?thesis by (cases e) simp_all
next
  case (CreateOrder ord items now)
  show ?thesis
  proof (cases e)
    case Orders
    then show ?thesis
      using CreateOrder by (simp add: createOrder_eq[OF assms] map_values_def)
  next
    case OrderItems
    then show ?thesis
      using CreateOrder
      by (simp add: createOrder_eq[OF assms] createOrder_items_eq map_values_def comp_def)
  qed (simp_all add: CreateOrder)
next
  case (UpdateOrderStatus i st)
  then show ?thesis by (cases e) simp_all
qed

subsection \<open>Auxiliary facts about the router\<close>

lemma map_of_obj_set: "map_of (obj_set k x fs) = (map_of fs)(k \<mapsto> x)"
  by (induction fs) (auto simp: fun_eq_iff)

lemma issue_Nil: "issue k r = [] \<longleftrightarrow> r \<noteq> None"
  by (simp add: issue_def split: option.splits)

lemma z_number_Some: "z_number v = Some r \<longleftrightarrow> v = Some (JNum r)"
  by (cases v rule: z_number.cases) auto

lemma z_string_Some: "z_string v = Some x \<longleftrightarrow> v = Some (JStr x)"
  by (cases v rule: z_string.cases) auto

lemma z_integer_of_int: "z_integer (Some (JNum (of_int n))) = Some n"
  by simp

lemma isArray_iff: "isArray v \<longleftrightarrow> (\<exists>xs. v = Some (JArr xs))"
  by (cases v rule: isArray.cases) auto

lemma isString_iff: "isString v \<longleftrightarrow> (\<exists>x. v = Some (JStr x))"
  by (cases v rule: isString.cases) auto

lemma insertOrderSchema_parse_Inr:
  assumes "insertOrderSchema_parse fs = Inr v"
  shows "z_integer (map_of fs ''userId'') = Some (userId v) \<and>
     map_of fs ''customerName'' = Some (JStr (customerName v)) \<and>
     map_of fs ''customerPhone'' = Some (JStr (customerPhone v)) \<and>
     map_of fs ''orderType'' = Some (JStr (orderType v)) \<and>
     map_of fs ''subtotal'' = Some (JNum (subtotal v)) \<and>
     map_of fs ''tax'' = Some (JNum (tax v)) \<and>
     map_of fs ''total'' = Some (JNum (total v))"
  using assms
  by (auto simp: insertOrderSchema_parse_def Let_def issue_Nil
      z_number_Some[symmetric] z_string_Some[symmetric] split: if_splits)

lemma insertOrderSchema_parse_not_TypeError: "insertOrderSchema_parse fs \<noteq> Inl TypeError"
  by (simp add: insertOrderSchema_parse_def Let_def)

lemma length_cart_items: "cart_items cart = Inr items \<Longrightarrow> length items = length cart"
  by (induction cart arbitrary: items) (auto split: sum.splits)

lemma js_prop_Inr_other: "js_prop k body = Inr c \<Longrightarrow> \<exists>d. js_prop k' body = Inr d"
  by (cases body) simp_all

lemma post_orders_empty_cart:
  assumes "js_prop ''cartItems'' body = Inr c" "c = None \<or> \<not> isArray c \<or> elements c = []"
  shows "post_orders (Some u) body now s = (respond 400 (Message ''Cart cannot be empty''), s)"
proof -
  obtain d where d: "js_prop ''orderDetails'' body = Inr d"
    using js_prop_Inr_other[OF assms(1), of "''orderDetails''"] by blast
  have "\<not> truthy c \<or> \<not> isArray c \<or> length (elements c) = 0"
    using assms(2) by auto
  then show ?thesis
    by (simp add: post_orders_def d assms(1))
qed

lemma cart_nonempty:
  assumes "\<not> (\<not> truthy c \<or> \<not> isArray c \<or> length (elements c) = 0)"
  shows "\<exists>cart. c = Some (JArr cart) \<and> cart \<noteq> []"
proof -
  have a: "isArray c" and e: "elements c \<noteq> []" using assms by simp_all
  obtain cart where c: "c = Some (JArr cart)" using a isArray_iff[of c] by blast
  then have "cart \<noteq> []" using e by simp
  then show ?thesis using c by blast
qed

lemma post_orders_stages:
  assumes "post_orders (Some u) body now s = (r, s')"
  shows "(code r \<noteq> 201 \<and> s' = s) \<or>
     (\<exists>od cart v items.
        js_prop ''orderDetails'' body = Inr od \<and>
        js_prop ''cartItems'' body = Inr (Some (JArr cart)) \<and> cart \<noteq> [] \<and>
        insertOrderSchema_parse
          (obj_set ''userId'' (JNum (of_int (user_id u))) (spread od)) = Inr v \<and>
        cart_items cart = Inr items \<and>
        r = respond 201 (OrderBody (fst (createOrder v items now s))) \<and>
        s' = snd (createOrder v items now s))"
proof (cases "js_prop ''orderDetails'' body")
  case (Inl e)
  then have "post_orders (Some u) body now s =
      (respond 500 (Message ''Error creating order''), s)"
    by (simp add: post_orders_def)
  then have "code r \<noteq> 201 \<and> s' = s" using assms by (auto simp: respond_def)
  then show ?thesis by (rule disjI1)
next
  case od: (Inr od)
  show ?thesis
  proof (cases "js_prop ''cartItems'' body")
    case (Inl e)
    then have "post_orders (Some u) body now s =
        (respond 500 (Message ''Error creating order''), s)"
      by (simp add: post_orders_def od)
    then have "code r \<noteq> 201 \<and> s' = s" using assms by (auto simp: respond_def)
    then show ?thesis by (rule disjI1)
  next
    case c: (Inr c)
    show ?thesis
    proof (cases "\<not> truthy c \<or> \<not> isArray c \<or> length (elements c) = 0")
      case True
      then have "post_orders (Some u) body now s =
          (respond 400 (Message ''Cart cannot be empty''), s)"
        by (simp add: post_orders_def od c)
      then have "code r \<noteq> 201 \<and> s' = s" using assms by (auto simp: respond_def)
      then show ?thesis by (rule disjI1)
    next
      case False
      then obtain cart where cart: "c = Some (JArr cart)" "cart \<noteq> []"
        using cart_nonempty[of c] by blast
      let ?p = "insertOrderSchema_parse
          (obj_set ''userId'' (JNum (of_int (user_id u))) (spread od))"
      show ?thesis
      proof (cases ?p)
        case (Inl e)
        then have "post_orders (Some u) body now s =
            (case e of
               ZodError errors \<Rightarrow> (respond 400 (Invalid ''Invalid order data'' errors), s)
             | TypeError \<Rightarrow> (respond 500 (Message ''Error creating order''), s))"
          by (simp add: post_orders_def od c cart)
        then have "code r \<noteq> 201 \<and> s' = s"
          using assms by (cases e) (auto simp: respond_def)
        then show ?thesis by (rule disjI1)
      next
        case v: (Inr v)
        show ?thesis
        proof (cases "cart_items cart")
          case (Inl e)
          then have "post_orders (Some u) body now s =
              (case e of
                 ZodError errors \<Rightarrow> (respond 400 (Invalid ''Invalid order data'' errors), s)
               | TypeError \<Rightarrow> (respond 500 (Message ''Error creating order''), s))"
            using cart(2) by (simp add: post_orders_def od c cart(1) v)
          then have "code r \<noteq> 201 \<and> s' = s"
            using assms by (cases e) (auto simp: respond_def)
          then show ?thesis by (rule disjI1)
        next
          case (Inr items)
          then have "post_orders (Some u) body now s =
              (respond 201 (OrderBody (fst (createOrder v items now s))),
               snd (createOrder v items now s))"
            using cart(2) by (simp add: post_orders_def od c cart(1) v split_beta)
          then have "r = respond 201 (OrderBody (fst (createOrder v items now s))) \<and>
              s' = snd (createOrder v items now s)"
            using assms by simp
          then have "\<exists>od cart v items.
              js_prop ''orderDetails'' body = Inr od \<and>
              js_prop ''cartItems'' body = Inr (Some (JArr cart)) \<and> cart \<noteq> [] \<and>
              insertOrderSchema_parse
                (obj_set ''userId'' (JNum (of_int (user_id u))) (spread od)) = Inr v \<and>
              cart_items cart = Inr items \<and>
              r = respond 201 (OrderBody (fst (createOrder v items now s))) \<and>
              s' = snd (createOrder v items now s)"
            using od c cart v Inr by blast
          then show ?thesis by (rule disjI2)
        qed
      qed
    qed
  qed
qed

lemma post_orders_created:
  assumes "post_orders (Some u) body now s = (r, s')" "code r = 201"
  shows "\<exists>od cart v items.
     js_prop ''orderDetails'' body = Inr od \<and>
     js_prop ''cartItems'' body = Inr (Some (JArr cart)) \<and> cart \<noteq> [] \<and>
     insertOrderSchema_parse (obj_set ''userId'' (JNum (of_int (user_id u))) (spread od)) = Inr v \<and>
     cart_items cart = Inr items \<and>
     r = respond 201 (OrderBody (fst (createOrder v items now s))) \<and>
     s' = snd (createOrder v items now s)"
  using post_orders_stages[OF assms(1)] assms(2) by blast

lemma post_orders_rejected:
  assumes "post_orders ru body now s = (r, s')" "code r \<noteq> 201"
  shows "s' = s"
proof (cases ru)
  case None
  then show ?thesis using assms by (simp add: post_orders_def)
next
  case (Some u)
  then show ?thesis
    using post_orders_stages[of u body now s r s'] assms by (auto simp: respond_def)
qed

lemma createOrder_orders:
  "orders (snd (createOrder v items now s)) =
     map_set (orderIdCounter s) (fst (createOrder v items now s)) (orders s)"
  by (simp add: createOrder_def Let_def addOrderItems_frame)

lemma createOrder_fields:
  "userId (fst (createOrder v items now s)) = userId v \<and>
   subtotal (fst (createOrder v items now s)) = subtotal v \<and>
   tax (fst (createOrder v items now s)) = tax v \<and>
   total (fst (createOrder v items now s)) = total v"
  by (simp add: createOrder_def Let_def)

lemma createOrder_stored:
  "map_get (orders (snd (createOrder v items now s)))
     (order_id (fst (createOrder v items now s))) = Some (fst (createOrder v items now s))"
  by (simp add: createOrder_orders createOrder_id map_get_map_set)

lemma index_key_digits: "set (index_key n) \<subseteq> set ''0123456789''"
proof (induction n rule: index_key.induct)
  case (1 n)
  have d: "''0123456789'' ! k \<in> set ''0123456789''" if "k < 10" for k
    using that nth_mem[of k "''0123456789''"] by simp
  show ?case
  proof (cases "n < 10")
    case True
    then show ?thesis using d[of n] by (subst index_key.simps) simp
  next
    case False
    then show ?thesis using 1 d[of "n mod 10"] by (subst index_key.simps) simp
  qed
qed

lemma index_key_neq:
  assumes "c \<in> set k" "c \<notin> set ''0123456789''"
  shows "index_key n \<noteq> k"
  using assms index_key_digits[of n] by blast

lemma map_of_index_keys:
  assumes "c \<in> set k" "c \<notin> set ''0123456789''"
  shows "map_of (map (\<lambda>i. (index_key i, f i)) xs) k = None"
proof -
  have "k \<notin> fst ` set (map (\<lambda>i. (index_key i, f i)) xs)"
    using index_key_neq[OF assms] by force
  then show ?thesis by (simp add: map_of_eq_None_iff)
qed

lemma spread_key:
  assumes "map_of (spread od) k = Some x" "c \<in> set k" "c \<notin> set ''0123456789''"
  shows "\<exists>fs. od = Some (JObj fs) \<and> map_of fs k = Some x"
proof (cases od)
  case None
  then show ?thesis using assms by simp
next
  case (Some j)
  then show ?thesis
    using assms(1) by (cases j) (simp_all add: map_of_index_keys[OF assms(2,3)])
qed

lemma getOrderWithItems_exec:
  assumes "store_inv s" "getOrderWithItems oid s = Some (ord, its)"
  shows "\<exists>ord'. getOrderWithItems oid (exec c s) = Some (ord', its)"
proof -
  have found: "map_get (orders s) oid = Some ord"
    and its: "its = filter (\<lambda>item. orderId item = oid) (map_values (orderItems s))"
    using assms(2) by (auto simp: getOrderWithItems_def split: option.splits)
  have below: "oid < orderIdCounter s"
    using assms(1) found entries_okD[of order_id "orderIdCounter s" "orders s" oid ord]
    by (simp add: store_inv_def)
  show ?thesis
  proof (cases c)
    case (CreateUser u)
    then show ?thesis using found its
      by (simp add: createUser_def Let_def getOrderWithItems_def)
  next
    case (CreateMenuItem m)
    then show ?thesis using found its
      by (simp add: createMenuItem_def Let_def getOrderWithItems_def)
  next
    case (UpdateMenuItem i p)
    then show ?thesis using found its
      by (simp add: updateMenuItem_def Let_def getOrderWithItems_def split: option.splits)
  next
    case (DeleteMenuItem i)
    then show ?thesis using found its
      by (simp add: deleteMenuItem_def map_delete_def getOrderWithItems_def)
  next
    case (CreateOrder v items now)
    have new: "filter (\<lambda>item. orderId item = oid)
        (stamp_items (orderIdCounter s) (orderItemIdCounter s) items) = []"
      using below stamp_items_orderId[of _ "orderIdCounter s" "orderItemIdCounter s" items]
      by (auto simp: filter_empty_conv)
    have "map_get (orders s @ [(orderIdCounter s, x)]) oid = Some ord" for x
      using found by (simp add: map_get_def map_add_Some_iff)
    then show ?thesis
      using CreateOrder its new
      by (simp add: createOrder_eq[OF assms(1)] getOrderWithItems_def map_values_def comp_def)
  next
    case (UpdateOrderStatus i st)
    then show ?thesis using found its
      by (simp add: updateOrderStatus_def Let_def getOrderWithItems_def map_get_map_set
          split: option.splits)
  qed
qed

lemma getOrderWithItems_run:
  assumes "store_inv s" "getOrderWithItems oid s = Some (ord, its)"
  shows "\<exists>ord'. getOrderWithItems oid (run cs s) = Some (ord', its)"
  using assms
proof (induction cs arbitrary: s ord)
  case Nil
  then show ?case by simp
next
  case (Cons c cs)
  obtain ord1 where "getOrderWithItems oid (exec c s) = Some (ord1, its)"
    using getOrderWithItems_exec[OF Cons.prems] by blast
  then show ?case
    using Cons.IH[OF store_inv_exec[OF Cons.prems(1)]] by simp
qed

lemma post_orders_mismatched:
  "post_orders (Some admin) mismatched_body 7000 MemStorage_new =
     (respond 201 (OrderBody
        \<lparr>userId = 1, customerName = ''A'', customerPhone = ''1234567890'',
         orderType = ''pickup'', specialInstructions = Absent,
         subtotal = 1, tax = 0, total = 100,
         order_id = 1, createdAt = 7000, status = None\<rparr>),
      MemStorage_new\<lparr>orderIdCounter := 2,
        orders := [(1, \<lparr>userId = 1, customerName = ''A'', customerPhone = ''1234567890'',
           orderType = ''pickup'', specialInstructions = Absent,
           subtotal = 1, tax = 0, total = 100,
           order_id = 1, createdAt = 7000, status = None\<rparr>)],
        orderItemIdCounter := 2,
        orderItems := [(1, \<lparr>orderId = 1, menuItemId = 6, item_name = ''Tea'', item_price = 5,
           quantity = 2, item_id = 1\<rparr>)]\<rparr>)"
  by (simp add: post_orders_def admin_def mismatched_body_def insertOrderSchema_parse_def
      cart_item_def insertOrderItemSchema_parse_def literal_def issue_def createOrder_def
      Let_def MemStorage_new_facts)

subsection \<open>The claims\<close>

text \<open>
  \<^bold>\<open>C1.\<close>  \<^verbatim>\<open>createOrder(order, items)\<close> is one step from a store to a store: the
  method has no point of suspension, so the stores that a caller can see are
  the one before the call and the one after it.  In a reachable store, before the
  call \<^verbatim>\<open>getOrderWithItems\<close> does not find the id of the order to be returned;
  after the call it returns this order together with as many order items as the
  call was given (also when it was given none), each with the id of the order
  as its \<^verbatim>\<open>orderId\<close>, whatever \<^verbatim>\<open>orderId\<close> the caller supplied, and with the menu
  item id, name, price and quantity of the caller's items, in their order.
\<close>

theorem createOrder_with_items:
  assumes "reachable s"
  shows "case createOrder ord items now s of (newOrder, s') \<Rightarrow>
     getOrderWithItems (order_id newOrder) s = None \<and>
     (\<exists>its. getOrderWithItems (order_id newOrder) s' = Some (newOrder, its) \<and>
        length its = length items \<and>
        (\<forall>i\<in>set its. orderId i = order_id newOrder) \<and>
        map (\<lambda>i. (menuItemId i, item_name i, item_price i, quantity i)) its =
        map (\<lambda>i. (menuItemId i, item_name i, item_price i, quantity i)) items)"
proof -
  have inv: "store_inv s" using assms by (rule reachable_inv)
  let ?its = "stamp_items (orderIdCounter s) (orderItemIdCounter s) items"
  have before: "getOrderWithItems (order_id (fst (createOrder ord items now s))) s = None"
    using getOrderWithItems_before[OF inv] by (simp add: createOrder_id)
  have after: "getOrderWithItems (order_id (fst (createOrder ord items now s)))
      (snd (createOrder ord items now s)) = Some (fst (createOrder ord items now s), ?its)"
    using getOrderWithItems_createOrder[OF inv, of ord items now] by (simp add: createOrder_id)
  have "\<forall>i\<in>set ?its. orderId i = order_id (fst (createOrder ord items now s))"
    by (simp add: createOrder_id stamp_items_orderId)
  then show ?thesis
    using before after by (simp add: split_beta length_stamp_items stamp_items_content)
qed

theorem createOrder_with_items_witness:
  "reachable example_store \<and>
   (case createOrder (example_order 7) [example_item\<lparr>orderId := 99\<rparr>, example_item] 5000
           example_store of
      (newOrder, s') \<Rightarrow>
        order_id newOrder = 4 \<and>
        getOrderWithItems 4 example_store = None \<and>
        getOrderWithItems 4 s' =
          Some (newOrder,
            [\<lparr>orderId = 4, menuItemId = 6, item_name = ''Tea'', item_price = 1.5,
               quantity = 2, item_id = 5\<rparr>,
             \<lparr>orderId = 4, menuItemId = 6, item_name = ''Tea'', item_price = 1.5,
               quantity = 2, item_id = 6\<rparr>]))"
  using reachable_example
    createOrder_with_items[OF reachable_example, where ord = "example_order 7"
      and items = "[example_item\<lparr>orderId := 99\<rparr>, example_item]" and now = 5000]
  by (simp add: createOrder_def getOrderWithItems_def map_get_def map_values_def Let_def
      example_store_facts example_item_def example_order_def)

text \<open>
  \<^bold>\<open>C2.\<close>  When \<^verbatim>\<open>POST /api/orders\<close> by an authenticated user answers 201, the
  order in the response has the id of that user as its \<^verbatim>\<open>userId\<close>, whatever the
  body of the request holds, and the store holds this order under its id.
\<close>

theorem post_orders_owner:
  assumes "post_orders (Some u) body now s = (r, s')" "code r = 201"
  shows "\<exists>ord. payload r = OrderBody ord \<and> userId ord = user_id u \<and>
     map_get (orders s') (order_id ord) = Some ord"
proof -
  obtain od v items where
    v: "insertOrderSchema_parse
          (obj_set ''userId'' (JNum (of_int (user_id u))) (spread od)) = Inr v"
    and r: "r = respond 201 (OrderBody (fst (createOrder v items now s)))"
    and s': "s' = snd (createOrder v items now s)"
    using post_orders_created[OF assms] by blast
  have "z_integer (map_of (obj_set ''userId'' (JNum (of_int (user_id u))) (spread od))
          ''userId'') = Some (userId v)"
    using insertOrderSchema_parse_Inr[OF v] by blast
  then have "userId v = user_id u"
    by (simp add: map_of_obj_set)
  then show ?thesis
    using r s' createOrder_stored[of v items now s] createOrder_fields[of v items now s]
    by (simp add: respond_def)
qed

theorem post_orders_owner_witness:
  "code (fst (post_orders (Some admin) mismatched_body 7000 MemStorage_new)) = 201 \<and>
   user_id admin = 1 \<and>
   (\<exists>ord. payload (fst (post_orders (Some admin) mismatched_body 7000 MemStorage_new)) =
        OrderBody ord \<and> userId ord = 1 \<and>
      map_get (orders (snd (post_orders (Some admin) mismatched_body 7000 MemStorage_new)))
        (order_id ord) = Some ord)"
proof -
  have c: "code (fst (post_orders (Some admin) mismatched_body 7000 MemStorage_new)) = 201"
    by (simp add: post_orders_mismatched respond_def)
  have u: "user_id admin = 1" by (simp add: admin_def)
  show ?thesis
    using c u post_orders_owner[OF surjective_pairing c] by simp
qed

text \<open>
  \<^bold>\<open>C3.\<close>  For a body that is not \<^verbatim>\<open>null\<close>: when \<^verbatim>\<open>cartItems\<close> is missing, is not an
  array or is an empty array, \<^verbatim>\<open>POST /api/orders\<close> answers 400 with the message
  ``Cart cannot be empty'' and leaves the store as it is.  Every answer other than
  201 leaves the store as it is.  When the answer is 201, in a reachable store,
  \<^verbatim>\<open>getOrderWithItems\<close> shows the new order with one order item for each element of
  \<^verbatim>\<open>cartItems\<close>, at least one, and shows these items after every further sequence
  of calls on the store.
\<close>

theorem post_orders_cart:
  "(js_prop ''cartItems'' body = Inr c \<and> (c = None \<or> \<not> isArray c \<or> elements c = []) \<longrightarrow>
      post_orders (Some u) body now s =
        (respond 400 (Message ''Cart cannot be empty''), s)) \<and>
   (post_orders ru body now s = (r, s') \<and> code r \<noteq> 201 \<longrightarrow> s' = s) \<and>
   (reachable s \<and> post_orders (Some u) body now s = (r, s') \<and> code r = 201 \<longrightarrow>
      (\<exists>ord its cart. payload r = OrderBody ord \<and>
         js_prop ''cartItems'' body = Inr (Some (JArr cart)) \<and>
         getOrderWithItems (order_id ord) s' = Some (ord, its) \<and>
         length its = length cart \<and> its \<noteq> [] \<and>
         (\<forall>cs. \<exists>ord'. getOrderWithItems (order_id ord) (run cs s') = Some (ord', its))))"
proof (intro conjI impI)
  assume "js_prop ''cartItems'' body = Inr c \<and> (c = None \<or> \<not> isArray c \<or> elements c = [])"
  then show "post_orders (Some u) body now s =
      (respond 400 (Message ''Cart cannot be empty''), s)"
    using post_orders_empty_cart by blast
next
  assume "post_orders ru body now s = (r, s') \<and> code r \<noteq> 201"
  then show "s' = s" using post_orders_rejected by blast
next
  assume a: "reachable s \<and> post_orders (Some u) body now s = (r, s') \<and> code r = 201"
  then have inv: "store_inv s" by (simp add: reachable_inv)
  obtain cart v items where
    cart: "js_prop ''cartItems'' body = Inr (Some (JArr cart))" "cart \<noteq> []"
    and items: "cart_items cart = Inr items"
    and r: "r = respond 201 (OrderBody (fst (createOrder v items now s)))"
    and s': "s' = snd (createOrder v items now s)"
    using post_orders_created[of u body now s r s'] a by blast
  let ?ord = "fst (createOrder v items now s)"
  let ?its = "stamp_items (orderIdCounter s) (orderItemIdCounter s) items"
  have g: "getOrderWithItems (order_id ?ord) s' = Some (?ord, ?its)"
    using getOrderWithItems_createOrder[OF inv, of v items now] s'
    by (simp add: createOrder_id)
  have len: "length ?its = length cart"
    using length_cart_items[OF items] by (simp add: length_stamp_items)
  then have ne: "?its \<noteq> []" using cart(2) by auto
  have inv': "store_inv s'" using s' store_inv_createOrder[OF inv] by simp
  have later: "\<forall>cs. \<exists>ord'. getOrderWithItems (order_id ?ord) (run cs s') = Some (ord', ?its)"
    using getOrderWithItems_run[OF inv' g] by blast
  have "payload r = OrderBody ?ord" using r by (simp add: respond_def)
  then show "\<exists>ord its cart. payload r = OrderBody ord \<and>
         js_prop ''cartItems'' body = Inr (Some (JArr cart)) \<and>
         getOrderWithItems (order_id ord) s' = Some (ord, its) \<and>
         length its = length cart \<and> its \<noteq> [] \<and>
         (\<forall>cs. \<exists>ord'. getOrderWithItems (order_id ord) (run cs s') = Some (ord', its))"
    using cart(1) g len ne later by blast
qed

theorem post_orders_cart_witness:
  "post_orders (Some admin) (JObj [(''orderDetails'', JObj []), (''cartItems'', JArr [])]) 7000
     MemStorage_new = (respond 400 (Message ''Cart cannot be empty''), MemStorage_new) \<and>
   post_orders (Some admin) (JObj [(''orderDetails'', JObj [])]) 7000
     MemStorage_new = (respond 400 (Message ''Cart cannot be empty''), MemStorage_new) \<and>
   code (fst (post_orders (Some admin) mismatched_body 7000 MemStorage_new)) = 201 \<and>
   (\<exists>ord its cart.
      payload (fst (post_orders (Some admin) mismatched_body 7000 MemStorage_new)) =
        OrderBody ord \<and>
      js_prop ''cartItems'' mismatched_body = Inr (Some (JArr cart)) \<and>
      getOrderWithItems (order_id ord)
        (snd (post_orders (Some admin) mismatched_body 7000 MemStorage_new)) =
        Some (ord, its) \<and>
      length its = 1 \<and> its \<noteq> [])"
proof -
  have e1: "js_prop ''cartItems'' (JObj [(''orderDetails'', JObj []), (''cartItems'', JArr [])])
      = Inr (Some (JArr []))"
    by simp
  have e2: "js_prop ''cartItems'' (JObj [(''orderDetails'', JObj [])]) = Inr None"
    by simp
  have c: "code (fst (post_orders (Some admin) mismatched_body 7000 MemStorage_new)) = 201"
    by (simp add: post_orders_mismatched respond_def)
  have l: "js_prop ''cartItems'' mismatched_body = Inr (Some (JArr cart)) \<Longrightarrow> length cart = 1"
    for cart by (auto simp: mismatched_body_def)
  note t1 = post_orders_cart[where body = "JObj [(''orderDetails'', JObj []), (''cartItems'', JArr [])]"
      and c = "Some (JArr [])" and u = admin and now = 7000 and s = MemStorage_new
      and ru = None and r = "respond 401 (Message ''Unauthorized'')" and s' = MemStorage_new]
  note t2 = post_orders_cart[where body = "JObj [(''orderDetails'', JObj [])]"
      and c = None and u = admin and now = 7000 and s = MemStorage_new
      and ru = None and r = "respond 401 (Message ''Unauthorized'')" and s' = MemStorage_new]
  note t3 = post_orders_cart[where body = mismatched_body and c = None and u = admin
      and now = 7000 and s = MemStorage_new and ru = None
      and r = "fst (post_orders (Some admin) mismatched_body 7000 MemStorage_new)"
      and s' = "snd (post_orders (Some admin) mismatched_body 7000 MemStorage_new)"]
  have a: "post_orders (Some admin)
      (JObj [(''orderDetails'', JObj []), (''cartItems'', JArr [])]) 7000 MemStorage_new =
      (respond 400 (Message ''Cart cannot be empty''), MemStorage_new)"
    using t1 e1 by simp
  have b: "post_orders (Some admin) (JObj [(''orderDetails'', JObj [])]) 7000 MemStorage_new =
      (respond 400 (Message ''Cart cannot be empty''), MemStorage_new)"
    using t2 e2 by simp
  have "\<exists>ord its cart.
      payload (fst (post_orders (Some admin) mismatched_body 7000 MemStorage_new)) =
        OrderBody ord \<and>
      js_prop ''cartItems'' mismatched_body = Inr (Some (JArr cart)) \<and>
      getOrderWithItems (order_id ord)
        (snd (post_orders (Some admin) mismatched_body 7000 MemStorage_new)) =
        Some (ord, its) \<and>
      length its = length cart \<and> its \<noteq> [] \<and>
      (\<forall>cs. \<exists>ord'. getOrderWithItems (order_id ord)
         (run cs (snd (post_orders (Some admin) mismatched_body 7000 MemStorage_new))) =
         Some (ord', its))"
    using t3 c reachable.constructed by simp
  then obtain ord its cart where
    "payload (fst (post_orders (Some admin) mismatched_body 7000 MemStorage_new)) =
        OrderBody ord"
    "js_prop ''cartItems'' mismatched_body = Inr (Some (JArr cart))"
    "getOrderWithItems (order_id ord)
        (snd (post_orders (Some admin) mismatched_body 7000 MemStorage_new)) =
        Some (ord, its)"
    "length its = length cart" "its \<noteq> []"
    by blast
  then have "\<exists>ord its cart.
      payload (fst (post_orders (Some admin) mismatched_body 7000 MemStorage_new)) =
        OrderBody ord \<and>
      js_prop ''cartItems'' mismatched_body = Inr (Some (JArr cart)) \<and>
      getOrderWithItems (order_id ord)
        (snd (post_orders (Some admin) mismatched_body 7000 MemStorage_new)) =
        Some (ord, its) \<and>
      length its = 1 \<and> its \<noteq> []"
    using l by auto
  then show ?thesis using a b c by blast
qed

text \<open>
  \<^bold>\<open>C4.\<close>  When \<^verbatim>\<open>POST /api/orders\<close> answers 201, \<^verbatim>\<open>orderDetails\<close> is an object and
  the order in the response, which the store holds under its id, has as subtotal,
  tax and total the numbers that this object holds under these names.  There is a
  request that is answered with 201 although its total is not the sum of its
  subtotal and tax and its subtotal is not the sum of price times quantity over
  the order items; the order is stored with these numbers.
\<close>

theorem post_orders_trusts_totals:
  "(post_orders (Some u) body now s = (r, s') \<and> code r = 201 \<longrightarrow>
      (\<exists>fs ord. js_prop ''orderDetails'' body = Inr (Some (JObj fs)) \<and>
         payload r = OrderBody ord \<and>
         map_get (orders s') (order_id ord) = Some ord \<and>
         map_of fs ''subtotal'' = Some (JNum (subtotal ord)) \<and>
         map_of fs ''tax'' = Some (JNum (tax ord)) \<and>
         map_of fs ''total'' = Some (JNum (total ord)))) \<and>
   (\<exists>body' r' s'' ord its.
      post_orders (Some admin) body' 7000 MemStorage_new = (r', s'') \<and> code r' = 201 \<and>
      payload r' = OrderBody ord \<and>
      getOrderWithItems (order_id ord) s'' = Some (ord, its) \<and>
      total ord \<noteq> subtotal ord + tax ord \<and>
      subtotal ord \<noteq> (\<Sum>i\<leftarrow>its. item_price i * of_int (quantity i)))"
proof (intro conjI impI)
  assume a: "post_orders (Some u) body now s = (r, s') \<and> code r = 201"
  obtain od v items where
    od: "js_prop ''orderDetails'' body = Inr od"
    and v: "insertOrderSchema_parse
          (obj_set ''userId'' (JNum (of_int (user_id u))) (spread od)) = Inr v"
    and r: "r = respond 201 (OrderBody (fst (createOrder v items now s)))"
    and s': "s' = snd (createOrder v items now s)"
    using post_orders_created[of u body now s r s'] a by blast
  let ?fs = "obj_set ''userId'' (JNum (of_int (user_id u))) (spread od)"
  let ?ord = "fst (createOrder v items now s)"
  have p: "map_of ?fs ''subtotal'' = Some (JNum (subtotal v))"
      "map_of ?fs ''tax'' = Some (JNum (tax v))"
      "map_of ?fs ''total'' = Some (JNum (total v))"
    using insertOrderSchema_parse_Inr[OF v] by simp_all
  then have q: "map_of (spread od) ''subtotal'' = Some (JNum (subtotal v))"
      "map_of (spread od) ''tax'' = Some (JNum (tax v))"
      "map_of (spread od) ''total'' = Some (JNum (total v))"
    by (simp_all add: map_of_obj_set)
  have "CHR ''s'' \<in> set ''subtotal''" "CHR ''s'' \<notin> set ''0123456789''"
    by simp_all
  then obtain fs where fs: "od = Some (JObj fs)"
    using spread_key[OF q(1)] by blast
  have "map_of fs ''subtotal'' = Some (JNum (subtotal ?ord)) \<and>
        map_of fs ''tax'' = Some (JNum (tax ?ord)) \<and>
        map_of fs ''total'' = Some (JNum (total ?ord))"
    using q fs createOrder_fields[of v items now s] by simp
  moreover have "payload r = OrderBody ?ord" using r by (simp add: respond_def)
  moreover have "map_get (orders s') (order_id ?ord) = Some ?ord"
    using s' createOrder_stored[of v items now s] by simp
  ultimately show "\<exists>fs ord. js_prop ''orderDetails'' body = Inr (Some (JObj fs)) \<and>
         payload r = OrderBody ord \<and>
         map_get (orders s') (order_id ord) = Some ord \<and>
         map_of fs ''subtotal'' = Some (JNum (subtotal ord)) \<and>
         map_of fs ''tax'' = Some (JNum (tax ord)) \<and>
         map_of fs ''total'' = Some (JNum (total ord))"
    using od fs by blast
next
  let ?ord = "\<lparr>userId = 1, customerName = ''A'', customerPhone = ''1234567890'',
         orderType = ''pickup'', specialInstructions = Absent,
         subtotal = 1, tax = 0, total = 100,
         order_id = 1, createdAt = 7000, status = None\<rparr>"
  let ?its = "[\<lparr>orderId = 1, menuItemId = 6, item_name = ''Tea'', item_price = 5,
           quantity = 2, item_id = 1\<rparr>]"
  let ?s = "MemStorage_new\<lparr>orderIdCounter := 2, orders := [(1, ?ord)],
        orderItemIdCounter := 2, orderItems := [(1, hd ?its)]\<rparr>"
  have "post_orders (Some admin) mismatched_body 7000 MemStorage_new =
        (respond 201 (OrderBody ?ord), ?s) \<and>
      code (respond 201 (OrderBody ?ord)) = 201 \<and>
      payload (respond 201 (OrderBody ?ord)) = OrderBody ?ord \<and>
      getOrderWithItems (order_id ?ord) ?s = Some (?ord, ?its) \<and>
      total ?ord \<noteq> subtotal ?ord + tax ?ord \<and>
      subtotal ?ord \<noteq> (\<Sum>i\<leftarrow>?its. item_price i * of_int (quantity i))"
    by (simp add: post_orders_mismatched respond_def getOrderWithItems_def map_get_def
        map_values_def)
  then show "\<exists>body' r' s'' ord its.
      post_orders (Some admin) body' 7000 MemStorage_new = (r', s'') \<and> code r' = 201 \<and>
      payload r' = OrderBody ord \<and>
      getOrderWithItems (order_id ord) s'' = Some (ord, its) \<and>
      total ord \<noteq> subtotal ord + tax ord \<and>
      subtotal ord \<noteq> (\<Sum>i\<leftarrow>its. item_price i * of_int (quantity i))"
    by (intro exI)
qed

theorem post_orders_trusts_totals_witness:
  "code (fst (post_orders (Some admin) mismatched_body 7000 MemStorage_new)) = 201 \<and>
   (\<exists>fs ord. js_prop ''orderDetails'' mismatched_body = Inr (Some (JObj fs)) \<and>
      payload (fst (post_orders (Some admin) mismatched_body 7000 MemStorage_new)) =
        OrderBody ord \<and>
      map_of fs ''subtotal'' = Some (JNum 1) \<and> subtotal ord = 1 \<and>
      map_of fs ''tax'' = Some (JNum 0) \<and> tax ord = 0 \<and>
      map_of fs ''total'' = Some (JNum 100) \<and> total ord = 100)"
proof -
  have c: "code (fst (post_orders (Some admin) mismatched_body 7000 MemStorage_new)) = 201"
    by (simp add: post_orders_mismatched respond_def)
  have "\<exists>fs ord. js_prop ''orderDetails'' mismatched_body = Inr (Some (JObj fs)) \<and>
      payload (fst (post_orders (Some admin) mismatched_body 7000 MemStorage_new)) =
        OrderBody ord \<and>
      map_of fs ''subtotal'' = Some (JNum (subtotal ord)) \<and>
      map_of fs ''tax'' = Some (JNum (tax ord)) \<and>
      map_of fs ''total'' = Some (JNum (total ord))"
    using c post_orders_trusts_totals[where u = admin and body = mismatched_body
        and now = 7000 and s = MemStorage_new
        and r = "fst (post_orders (Some admin) mismatched_body 7000 MemStorage_new)"
        and s' = "snd (post_orders (Some admin) mismatched_body 7000 MemStorage_new)"]
    by auto
  then obtain fs ord where
    f: "js_prop ''orderDetails'' mismatched_body = Inr (Some (JObj fs))"
    and p: "payload (fst (post_orders (Some admin) mismatched_body 7000 MemStorage_new)) =
        OrderBody ord"
    and m: "map_of fs ''subtotal'' = Some (JNum (subtotal ord))"
      "map_of fs ''tax'' = Some (JNum (tax ord))"
      "map_of fs ''total'' = Some (JNum (total ord))"
    by blast
  have v: "subtotal ord = 1" "tax ord = 0" "total ord = 100"
    using p by (auto simp: post_orders_mismatched respond_def)
  show ?thesis
    using c f p m v by auto
qed

text \<open>
  \<^bold>\<open>C5.\<close>  For each of the four entity types and every sequence of calls on the
  store after its construction: the ids handed out since the store was empty,
  in the order of the calls, increase strictly, so no id is handed out twice;
  the ids that one more call hands out are larger than every id handed out
  before and than every id in the store, and are in the store after the call;
  the ids in the store are distinct; and \<^verbatim>\<open>deleteMenuItem\<close> leaves the counters as
  they are, so the id of a deleted menu item stays below the ids that later
  calls hand out.  \<^verbatim>\<open>createOrder\<close> hands out one order item id for each item it is
  given, and these are the ids, in this order, of the items that
  \<^verbatim>\<open>getOrderWithItems\<close> then shows for the new order.
\<close>

theorem ids_never_reused:
  "sorted_wrt (<) (history e (constructor_calls @ cs) empty_store) \<and>
   distinct (history e (constructor_calls @ cs) empty_store) \<and>
   (\<forall>i\<in>set (assigned e c (run cs MemStorage_new)).
      \<forall>j\<in>set (history e (constructor_calls @ cs) empty_store). j < i) \<and>
   (\<forall>i\<in>set (assigned e c (run cs MemStorage_new)).
      \<forall>j\<in>set (stored_ids e (run cs MemStorage_new)). j < i) \<and>
   distinct (stored_ids e (run cs MemStorage_new)) \<and>
   counter e (exec (DeleteMenuItem k) (run cs MemStorage_new)) = counter e (run cs MemStorage_new) \<and>
   set (assigned e c (run cs MemStorage_new)) \<subseteq>
     set (stored_ids e (exec c (run cs MemStorage_new))) \<and>
   length (assigned OrderItems (CreateOrder ord items now) (run cs MemStorage_new)) =
     length items \<and>
   map_option (\<lambda>p. map item_id (snd p))
     (getOrderWithItems (orderIdCounter (run cs MemStorage_new))
        (exec (CreateOrder ord items now) (run cs MemStorage_new))) =
     Some (assigned OrderItems (CreateOrder ord items now) (run cs MemStorage_new))"
proof -
  have sorted: "sorted_wrt (<) (history e (constructor_calls @ ds) empty_store)" for ds
    using history_increasing[OF store_inv_empty] by simp
  have d: "distinct (history e (constructor_calls @ cs) empty_store)"
    using sorted[of cs] strict_sorted_iff[of "history e (constructor_calls @ cs) empty_store"]
    by simp
  have "history e (constructor_calls @ cs @ [c]) empty_store =
        history e (constructor_calls @ cs) empty_store @ assigned e c (run cs MemStorage_new)"
    using history_append[of e "constructor_calls @ cs" "[c]" empty_store]
    by (simp add: run_append MemStorage_new_run)
  then have later: "\<forall>i\<in>set (assigned e c (run cs MemStorage_new)).
      \<forall>j\<in>set (history e (constructor_calls @ cs) empty_store). j < i"
    using sorted[of "cs @ [c]"] by (auto simp: sorted_wrt_append)
  have inv: "store_inv (run cs MemStorage_new)"
    by (simp add: store_inv_run store_inv_new)
  have below: "j < counter e s" if "store_inv s" "j \<in> set (stored_ids e s)" for j s
    using that by (cases e) (auto simp: store_inv_def entries_ok_def list_all_iff map_values_def)
  have stored: "\<forall>i\<in>set (assigned e c (run cs MemStorage_new)).
      \<forall>j\<in>set (stored_ids e (run cs MemStorage_new)). j < i"
    using assigned_bounds[OF inv, of e c] below[OF inv] by fastforce
  have del: "counter e (exec (DeleteMenuItem k) (run cs MemStorage_new)) =
      counter e (run cs MemStorage_new)"
    by (cases e) (simp_all add: deleteMenuItem_def map_delete_def)
  have len: "length (assigned OrderItems (CreateOrder ord items now) (run cs MemStorage_new)) =
      length items"
    by (simp add: createOrder_items_eq length_stamp_items)
  have shown: "map_option (\<lambda>p. map item_id (snd p))
     (getOrderWithItems (orderIdCounter (run cs MemStorage_new))
        (exec (CreateOrder ord items now) (run cs MemStorage_new))) =
     Some (assigned OrderItems (CreateOrder ord items now) (run cs MemStorage_new))"
    using getOrderWithItems_createOrder[OF inv, of ord items now]
    by (simp add: createOrder_items_eq)
  show ?thesis
    using sorted[of cs] d later stored stored_ids_distinct[OF inv] del
      assigned_stored[OF inv, of e c] len shown
    by blast
qed

theorem ids_never_reused_witness:
  "assigned MenuItems (CreateMenuItem (hd seed_items))
     (run [CreateMenuItem (hd seed_items), DeleteMenuItem 8] MemStorage_new) = [9] \<and>
   list_all (\<lambda>j. j < 9) (history MenuItems
        (constructor_calls @ [CreateMenuItem (hd seed_items), DeleteMenuItem 8]) empty_store) \<and>
   assigned OrderItems (CreateOrder (example_order 7) [example_item, example_item] 5000)
     example_store = [5, 6] \<and>
   stored_ids OrderItems example_store = [1, 2, 3, 4] \<and>
   stored_ids OrderItems
     (exec (CreateOrder (example_order 7) [example_item, example_item] 5000) example_store) =
     [1, 2, 3, 4, 5, 6] \<and>
   map_option (\<lambda>p. map item_id (snd p))
     (getOrderWithItems 4
        (exec (CreateOrder (example_order 7) [example_item, example_item] 5000)
           example_store)) = Some [5, 6] \<and>
   list_all (\<lambda>j. j < 5) (history OrderItems
        (constructor_calls @
         [CreateOrder (example_order 1) [example_item, example_item] 1000,
          CreateOrder (example_order 2) [example_item] 3000,
          CreateOrder (example_order 1) [example_item] 2000]) empty_store)"
proof -
  have a: "assigned MenuItems (CreateMenuItem (hd seed_items))
     (run [CreateMenuItem (hd seed_items), DeleteMenuItem 8] MemStorage_new) = [9]"
    by (simp add: createMenuItem_def deleteMenuItem_def map_delete_def Let_def
        MemStorage_new_facts)
  have m: "list_all (\<lambda>j. j < 9) (history MenuItems
        (constructor_calls @ [CreateMenuItem (hd seed_items), DeleteMenuItem 8]) empty_store)"
    using a ids_never_reused[of MenuItems "[CreateMenuItem (hd seed_items), DeleteMenuItem 8]"
        "CreateMenuItem (hd seed_items)" 8]
    by (simp add: list_all_iff)
  have b: "assigned OrderItems (CreateOrder (example_order 7) [example_item, example_item] 5000)
     example_store = [5, 6]"
    by (simp add: createOrder_items_def Let_def example_store_facts example_item_def)
  have s: "stored_ids OrderItems example_store = [1, 2, 3, 4]"
    by (simp add: map_values_def example_store_facts)
  have s': "stored_ids OrderItems
     (exec (CreateOrder (example_order 7) [example_item, example_item] 5000) example_store) =
     [1, 2, 3, 4, 5, 6]"
    by (simp add: createOrder_def Let_def map_values_def example_store_facts example_item_def)
  have c: "orderIdCounter example_store = 4"
    by (simp add: example_store_facts)
  note t = ids_never_reused[where e = OrderItems
      and cs = "[CreateOrder (example_order 1) [example_item, example_item] 1000,
          CreateOrder (example_order 2) [example_item] 3000,
          CreateOrder (example_order 1) [example_item] 2000]"
      and c = "CreateOrder (example_order 7) [example_item, example_item] 5000"
      and ord = "example_order 7" and items = "[example_item, example_item]" and now = 5000,
      folded example_store_def]
  have g: "map_option (\<lambda>p. map item_id (snd p))
     (getOrderWithItems 4
        (exec (CreateOrder (example_order 7) [example_item, example_item] 5000)
           example_store)) = Some [5, 6]"
  proof -
    have "map_option (\<lambda>p. map item_id (snd p))
       (getOrderWithItems (orderIdCounter example_store)
          (exec (CreateOrder (example_order 7) [example_item, example_item] 5000)
             example_store)) =
       Some (assigned OrderItems
          (CreateOrder (example_order 7) [example_item, example_item] 5000) example_store)"
      using t by blast
    then show ?thesis unfolding b c .
  qed
  have h: "list_all (\<lambda>j. j < 5) (history OrderItems
        (constructor_calls @
         [CreateOrder (example_order 1) [example_item, example_item] 1000,
          CreateOrder (example_order 2) [example_item] 3000,
          CreateOrder (example_order 1) [example_item] 2000]) empty_store)"
  proof -
    have "\<forall>i\<in>set (assigned OrderItems
          (CreateOrder (example_order 7) [example_item, example_item] 5000) example_store).
        \<forall>j\<in>set (history OrderItems
          (constructor_calls @
           [CreateOrder (example_order 1) [example_item, example_item] 1000,
            CreateOrder (example_order 2) [example_item] 3000,
            CreateOrder (example_order 1) [example_item] 2000]) empty_store). j < i"
      using t by blast
    then show ?thesis unfolding b by (simp add: list_all_iff)
  qed
  show ?thesis
    by (intro conjI a m b s s' g h)
qed

text \<open>
  \<^bold>\<open>C6.\<close>  For an admin, an id that the store holds and a body that is not
  \<^verbatim>\<open>null\<close>: \<^verbatim>\<open>PATCH /api/orders/:id/status\<close> answers 400 exactly when \<^verbatim>\<open>status\<close> is
  missing, is not a string, or is not one of ``new'', ``preparing'', ``ready'' and
  ``completed'', and then leaves the store as it is; for each of the four values
  it answers 200 with the order under that status, whatever the status of the
  order was, and stores that order.
\<close>

theorem patch_status_validation:
  assumes "isAdmin u = Some True" "map_get (orders s) i = Some ord"
    "js_prop ''status'' body = Inr st"
  shows "(code (fst (patch_order_status (Some u) (Some i) body s)) = 400 \<longleftrightarrow>
       (st = None \<or> \<not> isString st \<or> chars st \<notin> set valid_statuses)) \<and>
     (code (fst (patch_order_status (Some u) (Some i) body s)) = 400 \<longrightarrow>
       snd (patch_order_status (Some u) (Some i) body s) = s) \<and>
     (\<forall>v\<in>set valid_statuses. st = Some (JStr v) \<longrightarrow>
       patch_order_status (Some u) (Some i) body s =
         (respond 200 (OrderBody (ord\<lparr>status := Some v\<rparr>)),
          s\<lparr>orders := map_set i (ord\<lparr>status := Some v\<rparr>) (orders s)\<rparr>))"
proof (cases "st = None \<or> \<not> isString st \<or> chars st \<notin> set valid_statuses")
  case True
  have "patch_order_status (Some u) (Some i) body s =
      (respond 400 (Message ''Status is required''), s) \<or>
    patch_order_status (Some u) (Some i) body s =
      (respond 400 (Message ''Invalid status''), s)"
  proof (cases "\<not> truthy st \<or> \<not> isString st")
    case True
    then show ?thesis by (simp add: patch_order_status_def assms)
  next
    case False
    then obtain x where x: "st = Some (JStr x)" using isString_iff[of st] by blast
    then have "x \<notin> set valid_statuses" using True by simp
    then show ?thesis using False x by (simp add: patch_order_status_def assms)
  qed
  then have "code (fst (patch_order_status (Some u) (Some i) body s)) = 400 \<and>
      snd (patch_order_status (Some u) (Some i) body s) = s"
    by (auto simp: respond_def)
  moreover have "\<forall>v\<in>set valid_statuses. st \<noteq> Some (JStr v)"
    using True by auto
  ultimately show ?thesis using True by blast
next
  case False
  then obtain x where x: "st = Some (JStr x)" "x \<in> set valid_statuses"
    using isString_iff[of st] by auto
  then have ne: "x \<noteq> []" by (auto simp: valid_statuses_def)
  have "patch_order_status (Some u) (Some i) body s =
         (respond 200 (OrderBody (ord\<lparr>status := Some x\<rparr>)),
          s\<lparr>orders := map_set i (ord\<lparr>status := Some x\<rparr>) (orders s)\<rparr>)"
    using x ne by (simp add: patch_order_status_def assms updateOrderStatus_def Let_def)
  then show ?thesis using False x by (simp add: respond_def)
qed

theorem patch_status_validation_witness:
  "isAdmin admin = Some True \<and>
   map_get (orders example_store) 2 =
     Some \<lparr>userId = 2, customerName = ''A'', customerPhone = ''1234567890'',
            orderType = ''pickup'', specialInstructions = Absent,
            subtotal = 3, tax = 0.21, total = 3.21,
            order_id = 2, createdAt = 3000, status = None\<rparr> \<and>
   fst (patch_order_status (Some admin) (Some 2) (JObj [(''status'', JStr ''completed'')])
          example_store) =
     respond 200 (OrderBody
        \<lparr>userId = 2, customerName = ''A'', customerPhone = ''1234567890'',
         orderType = ''pickup'', specialInstructions = Absent,
         subtotal = 3, tax = 0.21, total = 3.21,
         order_id = 2, createdAt = 3000, status = Some ''completed''\<rparr>) \<and>
   patch_order_status (Some admin) (Some 2) (JObj [(''status'', JStr ''done'')]) example_store =
     (respond 400 (Message ''Invalid status''), example_store) \<and>
   patch_order_status (Some admin) (Some 2) (JObj [(''status'', JNum 1)]) example_store =
     (respond 400 (Message ''Status is required''), example_store) \<and>
   patch_order_status (Some admin) (Some 2) (JObj []) example_store =
     (respond 400 (Message ''Status is required''), example_store)"
proof -
  have a: "isAdmin admin = Some True" by (simp add: admin_def)
  have f: "map_get (orders example_store) 2 =
     Some \<lparr>userId = 2, customerName = ''A'', customerPhone = ''1234567890'',
            orderType = ''pickup'', specialInstructions = Absent,
            subtotal = 3, tax = 0.21, total = 3.21,
            order_id = 2, createdAt = 3000, status = None\<rparr>"
    by (simp add: map_get_def example_store_facts)
  have j: "js_prop ''status'' (JObj [(''status'', JStr ''completed'')]) =
      Inr (Some (JStr ''completed''))"
    by simp
  have ok: "fst (patch_order_status (Some admin) (Some 2)
      (JObj [(''status'', JStr ''completed'')]) example_store) =
     respond 200 (OrderBody
        \<lparr>userId = 2, customerName = ''A'', customerPhone = ''1234567890'',
         orderType = ''pickup'', specialInstructions = Absent,
         subtotal = 3, tax = 0.21, total = 3.21,
         order_id = 2, createdAt = 3000, status = Some ''completed''\<rparr>)"
    using patch_status_validation[OF a f j] by (simp add: valid_statuses_def)
  have bad: "patch_order_status (Some admin) (Some 2) (JObj [(''status'', JStr ''done'')])
      example_store = (respond 400 (Message ''Invalid status''), example_store)"
    "patch_order_status (Some admin) (Some 2) (JObj [(''status'', JNum 1)]) example_store =
     (respond 400 (Message ''Status is required''), example_store)"
    "patch_order_status (Some admin) (Some 2) (JObj []) example_store =
     (respond 400 (Message ''Status is required''), example_store)"
    by (simp_all add: patch_order_status_def a valid_statuses_def)
  show ?thesis using a f ok bad by simp
qed

text \<open>
  \<^bold>\<open>C7.\<close>  \<^verbatim>\<open>updateOrderStatus(orderId, status)\<close> with an id that the store does not
  hold returns the not-found value and the store as it was.  With an id that the
  store holds it returns the order with the status replaced by the given string,
  whatever the string is, and every other field as before; the store then holds
  this order under the id, every entry under another id is as before and in the
  same place, and the users, the menu, the order items and the four counters are
  as before.
\<close>

theorem updateOrderStatus_frame:
  "(map_get (orders s) oid = None \<longrightarrow> updateOrderStatus oid st s = (None, s)) \<and>
   (\<forall>ord. map_get (orders s) oid = Some ord \<longrightarrow>
      (\<exists>u s'. updateOrderStatus oid st s = (Some u, s') \<and>
         status u = Some st \<and> order_id u = order_id ord \<and> userId u = userId ord \<and>
         customerName u = customerName ord \<and> customerPhone u = customerPhone ord \<and>
         orderType u = orderType ord \<and> specialInstructions u = specialInstructions ord \<and>
         subtotal u = subtotal ord \<and> tax u = tax ord \<and> total u = total ord \<and>
         createdAt u = createdAt ord \<and>
         map_get (orders s') oid = Some u \<and>
         filter (\<lambda>p. fst p \<noteq> oid) (orders s') = filter (\<lambda>p. fst p \<noteq> oid) (orders s) \<and>
         map fst (orders s') = map fst (orders s) \<and>
         orderItems s' = orderItems s \<and> users s' = users s \<and> menuItems s' = menuItems s \<and>
         userIdCounter s' = userIdCounter s \<and> menuItemIdCounter s' = menuItemIdCounter s \<and>
         orderIdCounter s' = orderIdCounter s \<and> orderItemIdCounter s' = orderItemIdCounter s))"
proof (intro conjI allI impI)
  assume "map_get (orders s) oid = None"
  then show "updateOrderStatus oid st s = (None, s)"
    by (simp add: updateOrderStatus_def)
next
  fix ord
  assume found: "map_get (orders s) oid = Some ord"
  let ?u = "ord\<lparr>status := Some st\<rparr>"
  let ?s' = "s\<lparr>orders := map_set oid ?u (orders s)\<rparr>"
  have call: "updateOrderStatus oid st s = (Some ?u, ?s')"
    using found by (simp add: updateOrderStatus_def Let_def)
  have "map_get (orders ?s') oid = Some ?u"
    by (simp add: map_get_map_set)
  moreover have "filter (\<lambda>p. fst p \<noteq> oid) (orders ?s') = filter (\<lambda>p. fst p \<noteq> oid) (orders s)"
    by (simp add: filter_map_set_other)
  moreover have "map fst (orders ?s') = map fst (orders s)"
    using map_set_keys_present[OF found] by simp
  ultimately show "\<exists>u s'. updateOrderStatus oid st s = (Some u, s') \<and>
         status u = Some st \<and> order_id u = order_id ord \<and> userId u = userId ord \<and>
         customerName u = customerName ord \<and> customerPhone u = customerPhone ord \<and>
         orderType u = orderType ord \<and> specialInstructions u = specialInstructions ord \<and>
         subtotal u = subtotal ord \<and> tax u = tax ord \<and> total u = total ord \<and>
         createdAt u = createdAt ord \<and>
         map_get (orders s') oid = Some u \<and>
         filter (\<lambda>p. fst p \<noteq> oid) (orders s') = filter (\<lambda>p. fst p \<noteq> oid) (orders s) \<and>
         map fst (orders s') = map fst (orders s) \<and>
         orderItems s' = orderItems s \<and> users s' = users s \<and> menuItems s' = menuItems s \<and>
         userIdCounter s' = userIdCounter s \<and> menuItemIdCounter s' = menuItemIdCounter s \<and>
         orderIdCounter s' = orderIdCounter s \<and> orderItemIdCounter s' = orderItemIdCounter s"
    using call by (intro exI[of _ ?u] exI[of _ ?s']) simp
qed

theorem updateOrderStatus_frame_witness:
  "updateOrderStatus 9 ''ready'' example_store = (None, example_store) \<and>
   fst (updateOrderStatus 2 ''anything'' example_store) =
     Some \<lparr>userId = 2, customerName = ''A'', customerPhone = ''1234567890'',
            orderType = ''pickup'', specialInstructions = Absent,
            subtotal = 3, tax = 0.21, total = 3.21,
            order_id = 2, createdAt = 3000, status = Some ''anything''\<rparr> \<and>
   orderItems (snd (updateOrderStatus 2 ''anything'' example_store)) = orderItems example_store \<and>
   map_get (orders (snd (updateOrderStatus 2 ''anything'' example_store))) 1 =
     map_get (orders example_store) 1"
proof -
  have n: "map_get (orders example_store) 9 = None"
    by (simp add: map_get_def example_store_facts)
  have f: "map_get (orders example_store) 2 =
     Some \<lparr>userId = 2, customerName = ''A'', customerPhone = ''1234567890'',
            orderType = ''pickup'', specialInstructions = Absent,
            subtotal = 3, tax = 0.21, total = 3.21,
            order_id = 2, createdAt = 3000, status = None\<rparr>"
    by (simp add: map_get_def example_store_facts)
  show ?thesis
    using n f updateOrderStatus_frame[of example_store 9 "''ready''"]
      updateOrderStatus_frame[of example_store 2 "''anything''"]
    by (simp add: updateOrderStatus_def Let_def map_get_def example_store_facts)
qed

text \<open>
  \<^bold>\<open>C8.\<close>  \<^verbatim>\<open>updateMenuItem\<close> and \<^verbatim>\<open>deleteMenuItem\<close> leave the map of the orders and the
  map of the order items as they are, so every order item keeps its name, price,
  quantity, menu item id and order id, and \<^verbatim>\<open>getOrderWithItems\<close> and
  \<^verbatim>\<open>getAllOrders\<close> answer after the call what they answered before.
\<close>

theorem menu_changes_keep_orders:
  "orders (snd (updateMenuItem i p s)) = orders s \<and>
   orderItems (snd (updateMenuItem i p s)) = orderItems s \<and>
   orders (snd (deleteMenuItem i s)) = orders s \<and>
   orderItems (snd (deleteMenuItem i s)) = orderItems s \<and>
   getOrderWithItems oid (snd (updateMenuItem i p s)) = getOrderWithItems oid s \<and>
   getOrderWithItems oid (snd (deleteMenuItem i s)) = getOrderWithItems oid s \<and>
   getAllOrders (snd (updateMenuItem i p s)) = getAllOrders s \<and>
   getAllOrders (snd (deleteMenuItem i s)) = getAllOrders s"
proof -
  have u: "orders (snd (updateMenuItem i p s)) = orders s"
      "orderItems (snd (updateMenuItem i p s)) = orderItems s"
    by (simp_all add: updateMenuItem_def Let_def split: option.splits)
  have d: "orders (snd (deleteMenuItem i s)) = orders s"
      "orderItems (snd (deleteMenuItem i s)) = orderItems s"
    by (simp_all add: deleteMenuItem_def map_delete_def)
  show ?thesis
    by (simp add: u d getOrderWithItems_def getAllOrders_def cong: option.case_cong)
qed

theorem menu_changes_keep_orders_witness:
  "fst (deleteMenuItem 6 example_store) \<and>
   getMenuItem 6 (snd (deleteMenuItem 6 example_store)) = None \<and>
   getOrderWithItems 2 (snd (deleteMenuItem 6 example_store)) =
     Some (\<lparr>userId = 2, customerName = ''A'', customerPhone = ''1234567890'',
            orderType = ''pickup'', specialInstructions = Absent,
            subtotal = 3, tax = 0.21, total = 3.21,
            order_id = 2, createdAt = 3000, status = None\<rparr>,
           [\<lparr>orderId = 2, menuItemId = 6, item_name = ''Tea'', item_price = 1.5,
              quantity = 2, item_id = 3\<rparr>]) \<and>
   getOrderWithItems 2 (snd (updateMenuItem 6
       \<lparr>p_name = None, p_description = None, p_price = Some 99, p_imageUrl = None,
        p_category = None\<rparr> example_store)) =
     getOrderWithItems 2 example_store"
proof -
  have d: "fst (deleteMenuItem 6 example_store) \<and>
      getMenuItem 6 (snd (deleteMenuItem 6 example_store)) = None"
    by (simp add: deleteMenuItem_def map_delete_def getMenuItem_def map_get_def
        map_of_eq_None_iff example_store_def MemStorage_new_def seedMenuItems_def
        seed_items_def createMenuItem_def createUser_def empty_store_def createOrder_def
        admin_user_def Let_def addOrderItems_frame)
  have g: "getOrderWithItems 2 example_store =
     Some (\<lparr>userId = 2, customerName = ''A'', customerPhone = ''1234567890'',
            orderType = ''pickup'', specialInstructions = Absent,
            subtotal = 3, tax = 0.21, total = 3.21,
            order_id = 2, createdAt = 3000, status = None\<rparr>,
           [\<lparr>orderId = 2, menuItemId = 6, item_name = ''Tea'', item_price = 1.5,
              quantity = 2, item_id = 3\<rparr>])"
    by (simp add: getOrderWithItems_def map_get_def map_values_def example_store_facts)
  show ?thesis
    using d g menu_changes_keep_orders[of 6 "\<lparr>p_name = None, p_description = None,
        p_price = Some 99, p_imageUrl = None, p_category = None\<rparr>" example_store 2]
    by simp
qed

text \<open>
  \<^bold>\<open>C9.\<close>  Every order that \<^verbatim>\<open>getOrdersByUserId(u)\<close> returns has the user id \<open>u\<close>;
  the sequences returned by \<^verbatim>\<open>getOrdersByUserId(u)\<close> and by \<^verbatim>\<open>getAllOrders()\<close>
  are in descending order of the creation time; they hold the orders of the user,
  and all orders, each as often as the store does.
\<close>

theorem orders_newest_first:
  "(\<forall>ord\<in>set (getOrdersByUserId u s). userId ord = u) \<and>
   sorted_wrt (\<lambda>a b. createdAt b \<le> createdAt a) (getOrdersByUserId u s) \<and>
   sorted_wrt (\<lambda>a b. createdAt b \<le> createdAt a) (getAllOrders s) \<and>
   mset (getOrdersByUserId u s) = mset (filter (\<lambda>ord. userId ord = u) (map_values (orders s))) \<and>
   mset (getAllOrders s) = mset (map_values (orders s))"
  by (simp add: getOrdersByUserId_def getAllOrders_def set_sort_by sorted_sort_newest
      mset_sort_by)

theorem orders_newest_first_witness:
  "map order_id (getAllOrders example_store) = [2, 3, 1] \<and>
   map order_id (getOrdersByUserId 1 example_store) = [3, 1] \<and>
   list_all (\<lambda>ord. userId ord = 1) (getOrdersByUserId 1 example_store) \<and>
   sorted_wrt (\<lambda>a b. createdAt b \<le> createdAt a) (getAllOrders example_store)"
proof -
  have a: "map order_id (getAllOrders example_store) = [2, 3, 1]"
    by (simp add: getAllOrders_def sort_by_def newest_first_def map_values_def
        example_store_facts)
  have b: "map order_id (getOrdersByUserId 1 example_store) = [3, 1]"
    by (simp add: getOrdersByUserId_def sort_by_def newest_first_def map_values_def
        example_store_facts)
  show ?thesis using a b orders_newest_first[of 1 example_store] by (simp add: list_all_iff)
qed

text \<open>
  \<^bold>\<open>C10\<close>, as stated, fails: one \<^verbatim>\<open>createUser\<close> call after the construction, for
  the name of the default admin in other letter case, gives a reachable store
  with two users whose names are equal up to case.
\<close>

theorem usernames_not_unique:
  "reachable (exec (CreateUser \<lparr>username = ''Admin@Milestar.com'', password = ''pw'',
       user_name = ''Eve'', isAdmin = None\<rparr>) MemStorage_new) \<and>
   \<not> usernames_unique (exec (CreateUser \<lparr>username = ''Admin@Milestar.com'', password = ''pw'',
       user_name = ''Eve'', isAdmin = None\<rparr>) MemStorage_new)"
proof
  show "reachable (exec (CreateUser \<lparr>username = ''Admin@Milestar.com'', password = ''pw'',
       user_name = ''Eve'', isAdmin = None\<rparr>) MemStorage_new)"
    by (intro reachable.intros)
  show "\<not> usernames_unique (exec (CreateUser \<lparr>username = ''Admin@Milestar.com'', password = ''pw'',
       user_name = ''Eve'', isAdmin = None\<rparr>) MemStorage_new)"
    by (simp add: usernames_unique_def createUser_def Let_def MemStorage_new_facts
        map_values_def toLowerCase_def lower_char_def)
qed

text \<open>
  \<^bold>\<open>C10\<close>, as amended.  \<^verbatim>\<open>createUser\<close> does not look for the user name.  In every
  store reached by calls of which each \<^verbatim>\<open>createUser\<close> is made for a name that
  \<^verbatim>\<open>getUserByUsername\<close> does not find, no two users have the same user name up to
  the case of the letters, at most one user matches a name that
  \<^verbatim>\<open>getUserByUsername\<close> is asked for, and one more \<^verbatim>\<open>createUser\<close> for a name that
  is not found keeps it so.
\<close>

theorem usernames_unique_when_guarded:
  assumes "guarded s"
  shows "usernames_unique s \<and>
     length (filter (\<lambda>u. toLowerCase (username u) = toLowerCase name)
               (map_values (users s))) \<le> 1 \<and>
     (getUserByUsername name s = None \<longrightarrow>
        usernames_unique (snd (createUser \<lparr>username = name, password = pw, user_name = n,
           isAdmin = a\<rparr> s)))"
proof -
  have u: "usernames_unique s" using assms by (rule guarded_unique)
  then have "length (filter (\<lambda>u. toLowerCase (username u) = toLowerCase name)
               (map_values (users s))) \<le> 1"
    unfolding usernames_unique_def by (rule distinct_map_filter_le1)
  moreover have "usernames_unique (snd (createUser \<lparr>username = name, password = pw,
      user_name = n, isAdmin = a\<rparr> s))" if "getUserByUsername name s = None"
    using usernames_unique_createUser[OF reachable_inv[OF guarded_reachable[OF assms]] u,
        of "\<lparr>username = name, password = pw, user_name = n, isAdmin = a\<rparr>"] that
    by simp
  ultimately show ?thesis using u by blast
qed

theorem usernames_unique_when_guarded_witness:
  "guarded MemStorage_new \<and> usernames_unique MemStorage_new \<and>
   getUserByUsername ''ADMIN@MILESTAR.COM'' MemStorage_new =
     Some \<lparr>username = ''admin@milestar.com'', password = ''admin123'', user_name = ''Admin'',
           isAdmin = Some True, user_id = 1\<rparr> \<and>
   getUserByUsername ''bob'' MemStorage_new = None \<and>
   usernames_unique (snd (createUser \<lparr>username = ''bob'', password = ''pw'', user_name = ''Bob'',
           isAdmin = None\<rparr> MemStorage_new))"
proof -
  have g: "guarded MemStorage_new" by (rule guarded.g_constructed)
  have n: "getUserByUsername ''bob'' MemStorage_new = None"
    by (simp add: getUserByUsername_def MemStorage_new_facts map_values_def toLowerCase_def
        lower_char_def)
  have a: "getUserByUsername ''ADMIN@MILESTAR.COM'' MemStorage_new =
     Some \<lparr>username = ''admin@milestar.com'', password = ''admin123'', user_name = ''Admin'',
           isAdmin = Some True, user_id = 1\<rparr>"
    by (simp add: getUserByUsername_def MemStorage_new_facts map_values_def toLowerCase_def
        lower_char_def)
  show ?thesis
    using g n a usernames_unique_when_guarded[OF g, of "''bob''" "''pw''" "''Bob''" None]
    by simp
qed

end
